theory Spec2Isabelle
  imports Complex_Main
begin

section \<open>The Pong reducer of \<^verbatim>\<open>src/pong.ts\<close>\<close>

text \<open>
  The game is a fold (\<^verbatim>\<open>scan(reduceState, initialState)\<close>) of a reducer over a stream of
  events, with a subscriber that stops it at the end of the game. This theory embeds the
  reducer, everything it calls, the fold, and the subscriber's stop.

  Conventions of the embedding:
  \<^item> A JavaScript \<^verbatim>\<open>number\<close> is a \<^typ>\<open>real\<close>: arithmetic is exact, and there is no NaN
    and no infinity.
  \<^item> An object property that may be absent is an \<^typ>\<open>'a option\<close>. \<^verbatim>\<open>createBar\<close> builds a
    body without \<^verbatim>\<open>velocity\<close>, so that field is optional in the model although the
    TypeScript type declares it mandatory; reading a component of an absent vector throws
    a \<^verbatim>\<open>TypeError\<close> in JavaScript and is the error value here.
  \<^item> \<^verbatim>\<open>Math.random() > 0.5\<close> in \<^verbatim>\<open>createBall\<close> is a boolean parameter: the draw made
    when the ball is constructed. \<^verbatim>\<open>initialState\<close> is built once, with the draw \<open>r0\<close>;
    a \<^verbatim>\<open>Tick\<close> constructs a ball only in an endzone, with the draw \<open>rnd\<close>.
  \<^item> The event union \<^verbatim>\<open>Tick | Slide | ToggleBreakout | Restart | SetDifficulty\<close> is a
    datatype, so the final \<^verbatim>\<open>thrower\<close> arm of \<^verbatim>\<open>reduceState\<close> has no counterpart.
  \<^item> Record fields cannot share a name with another record's field or with a constant of
    the library: \<^verbatim>\<open>x\<close>, \<^verbatim>\<open>y\<close> of a vector are \<open>vec_x\<close>, \<open>vec_y\<close>; \<^verbatim>\<open>size\<close> of a body is
    \<open>body_size\<close>; \<^verbatim>\<open>id\<close> and \<^verbatim>\<open>position\<close> of a brick are \<open>brick_id\<close> and
    \<open>brick_position\<close>.
\<close>

subsection \<open>Constants\<close>

definition CanvasSize :: real where "CanvasSize = 600"
definition BallRadius :: real where "BallRadius = 7"
definition BarHeight :: real where "BarHeight = 75"
definition BarWidth :: real where "BarWidth = 6"
definition Zero :: real where "Zero = 0"
definition InitalBallVelocity :: real where "InitalBallVelocity = 1"
definition maxBounceAngle :: real where "maxBounceAngle = 500"
definition maxScore :: real where "maxScore = 7"
definition playerBarNum :: real where "playerBarNum = 1"
definition computerBarNum :: real where "computerBarNum = 2"
definition opacityReduction :: real where "opacityReduction = 0.25"

lemmas Constants_defs =
  CanvasSize_def BallRadius_def BarHeight_def BarWidth_def Zero_def InitalBallVelocity_def
  maxBounceAngle_def maxScore_def playerBarNum_def computerBarNum_def opacityReduction_def

subsection \<open>Vectors\<close>

datatype Vector = Vector (vec_x: real) (vec_y: real)

definition add :: "Vector \<Rightarrow> Vector \<Rightarrow> Vector" where
  "add this v = Vector (vec_x this + vec_x v) (vec_y this + vec_y v)"

definition scale :: "Vector \<Rightarrow> real \<Rightarrow> Vector" where
  "scale this s = Vector (vec_x this * s) (vec_y this * s)"

definition flipY :: "Vector \<Rightarrow> Vector" where
  "flipY this = Vector (vec_x this) (- vec_y this)"

definition flipX :: "Vector \<Rightarrow> Vector" where
  "flipX this = Vector (- vec_x this) (vec_y this)"

definition alterY :: "Vector \<Rightarrow> real \<Rightarrow> Vector" where
  "alterY this y = Vector (vec_x this) y"

definition Vector_Zero :: Vector where
  "Vector_Zero = Vector 0 0"

lemmas Vector_defs = add_def scale_def flipY_def flipX_def alterY_def Vector_Zero_def

text \<open>\<^verbatim>\<open>Math.sign\<close> on a number that is not NaN.\<close>

definition Math_sign :: "real \<Rightarrow> real" where
  "Math_sign a = (if a > 0 then 1 else if a < 0 then - 1 else 0)"

definition calcBouncedVelocity :: "Vector \<Rightarrow> real \<Rightarrow> Vector" where
  "calcBouncedVelocity currVec incomingPos =
     Vector (- vec_x currVec)
       (maxBounceAngle * - (incomingPos + BarHeight / 2) / (BarHeight / 2) / 100)"

subsection \<open>Bodies, bricks and the state\<close>

record NewtonianBody =
  position :: Vector
  acceleration :: "Vector option"
  velocity :: "Vector option"
  body_size :: real

record BrickBody =
  brick_id :: real
  brick_position :: Vector
  width :: real
  height :: real
  opacity :: real
  numberOfHitsLeft :: real

datatype HTMLAudioElement = Audio string

record State =
  time :: real
  playerBar :: NewtonianBody
  computerBar :: NewtonianBody
  ball :: NewtonianBody
  p1Score :: real
  p2Score :: real
  endOfGame :: real
  computerDifficulty :: real
  isBreakout :: bool
  breakoutAddedEffects :: HTMLAudioElement
  bricks :: "BrickBody list"
  bricksToRemove :: "real list"

datatype Event =
    Tick real
  | Slide real
  | Restart bool
  | SetDifficulty real
  | ToggleBreakout bool

datatype error = TypeError

subsection \<open>Constructors and the initial state\<close>

text \<open>Every call of \<^verbatim>\<open>createBar\<close> and \<^verbatim>\<open>createBall\<close> passes no optional argument, so the
  defaults are written in.\<close>

definition createBar :: "real \<Rightarrow> NewtonianBody" where
  "createBar p =
     \<lparr> position = Vector (if p = 1 then CanvasSize / 8 else if p = 2 then 7 * CanvasSize / 8 else 0)
                         (CanvasSize / 2 - BarHeight / 2),
       acceleration = Some Vector_Zero,
       velocity = None,
       body_size = BarHeight \<rparr>"

definition createBall :: "bool \<Rightarrow> NewtonianBody" where
  "createBall rnd =
     \<lparr> position = Vector (CanvasSize / 2) (CanvasSize / 2),
       acceleration = Some Vector_Zero,
       velocity = Some (Vector (if rnd then 3 else - 3) Zero),
       body_size = BallRadius \<rparr>"

definition createBrick :: "real \<Rightarrow> real \<Rightarrow> real \<Rightarrow> real \<Rightarrow> real \<Rightarrow> Vector \<Rightarrow> BrickBody" where
  "createBrick wid h opac numHitLeft i pos =
     \<lparr> brick_id = i, brick_position = pos, width = wid, height = h, opacity = opac,
       numberOfHitsLeft = numHitLeft \<rparr>"

definition initialiseBricks :: "BrickBody list" where
  "initialiseBricks =
     (let tempBrickHeight = 40;
          pixelsOffCenter = 20;
          defaultBrick = createBrick 7 (tempBrickHeight - 2) 1 4
      in map (\<lambda>index. defaultBrick (real index + 1)
                (Vector (CanvasSize / 2 + (if index mod 2 = 0 then pixelsOffCenter else - pixelsOffCenter))
                        (real index * tempBrickHeight)))
             [0 ..< nat \<lfloor>CanvasSize / tempBrickHeight\<rfloor>])"

definition initialState :: "bool \<Rightarrow> State" where
  "initialState r0 =
     \<lparr> time = 0,
       playerBar = createBar playerBarNum,
       computerBar = createBar computerBarNum,
       ball = createBall r0,
       p1Score = 0,
       p2Score = 0,
       endOfGame = 0,
       computerDifficulty = 25 / 20,
       isBreakout = False,
       breakoutAddedEffects = Audio ''musc/SpecialRequest-SpectralFrequency.mp3'',
       bricks = initialiseBricks,
       bricksToRemove = [] \<rparr>"

subsection \<open>One simulation step\<close>

definition incrementScore :: "real \<Rightarrow> bool \<Rightarrow> real" where
  "incrementScore score hasWonPoint = score + (if hasWonPoint then 1 else 0)"

text \<open>The velocity of the ball is read by every caller before the call, so it is an argument
  here (\<open>ballVel\<close> is \<^verbatim>\<open>ball.velocity\<close>).\<close>

definition calculateBallBounce ::
  "NewtonianBody \<Rightarrow> Vector \<Rightarrow> bool \<Rightarrow> bool \<Rightarrow> real \<Rightarrow> bool \<Rightarrow> NewtonianBody" where
  "calculateBallBounce b ballVel isballBounceOnBorder isballBounceOnPaddle paddleAimVerticalError
       isBallBounceOnBrick =
     b\<lparr> velocity := Some
          (if isballBounceOnPaddle then calcBouncedVelocity ballVel paddleAimVerticalError
           else if isballBounceOnBorder then flipY ballVel
           else if isBallBounceOnBrick then flipY (flipX ballVel)
           else ballVel) \<rparr>"

definition moveObject :: "NewtonianBody \<Rightarrow> error + NewtonianBody" where
  "moveObject o' =
     (case velocity o' of
        None \<Rightarrow> Inl TypeError
      | Some v \<Rightarrow> Inr (o'\<lparr> position := add (position o') v \<rparr>))"

definition isBallBounceOnBrick :: "State \<Rightarrow> BrickBody \<Rightarrow> bool" where
  "isBallBounceOnBrick s b =
     (let ballPos = position (ball s) in
      (vec_x (brick_position b) \<le> vec_x ballPos + body_size (ball s)
         \<and> vec_x ballPos - body_size (ball s) \<le> vec_x (brick_position b) + width b)
      \<and> (vec_y (brick_position b) \<le> vec_y ballPos + body_size (ball s)
         \<and> vec_y ballPos - body_size (ball s) \<le> vec_y (brick_position b) + height b))"

definition setBrickOpacity :: "BrickBody \<Rightarrow> BrickBody" where
  "setBrickOpacity b =
     b\<lparr> opacity := opacity b - opacityReduction, numberOfHitsLeft := numberOfHitsLeft b - 1 \<rparr>"

text \<open>\<^verbatim>\<open>!Boolean(n)\<close> holds of the number 0 only (NaN apart).\<close>

definition brickToRemove :: "BrickBody \<Rightarrow> bool" where
  "brickToRemove b = (numberOfHitsLeft b = 0)"

definition brickToKeep :: "BrickBody \<Rightarrow> bool" where
  "brickToKeep b = (numberOfHitsLeft b > 0)"

definition getBrickID :: "BrickBody \<Rightarrow> real" where
  "getBrickID b = brick_id b"

definition isballp1Endzone :: "State \<Rightarrow> bool" where
  "isballp1Endzone s = (vec_x (position (ball s)) \<le> Zero)"

definition isballp2Endzone :: "State \<Rightarrow> bool" where
  "isballp2Endzone s = (vec_x (position (ball s)) \<ge> CanvasSize)"

definition isballBounceOnLeftBar :: "State \<Rightarrow> bool" where
  "isballBounceOnLeftBar s =
     (let ballPos = position (ball s); playBarPos = position (playerBar s) in
      vec_x ballPos - body_size (ball s) - BarWidth \<le> CanvasSize / 8
      \<and> vec_x ballPos \<ge> CanvasSize / 8 - 10
      \<and> (vec_y ballPos \<ge> vec_y playBarPos \<and> vec_y ballPos \<le> vec_y playBarPos + BarHeight))"

definition isballBounceOnRightBar :: "State \<Rightarrow> bool" where
  "isballBounceOnRightBar s =
     (let ballPos = position (ball s); compBarPos = position (computerBar s) in
      vec_x ballPos + body_size (ball s) \<ge> 7 * CanvasSize / 8
      \<and> vec_x ballPos \<le> 7 * CanvasSize / 8 + 10
      \<and> (vec_y ballPos \<ge> vec_y compBarPos \<and> vec_y ballPos \<le> vec_y compBarPos + BarHeight))"

definition isballBounceOnBorder :: "State \<Rightarrow> bool" where
  "isballBounceOnBorder s =
     (vec_y (position (ball s)) \<le> Zero \<or> vec_y (position (ball s)) \<ge> CanvasSize)"

definition paddleAimVerticalError :: "State \<Rightarrow> real" where
  "paddleAimVerticalError s =
     (if isballBounceOnLeftBar s then vec_y (position (playerBar s)) - vec_y (position (ball s))
      else if isballBounceOnRightBar s then vec_y (position (computerBar s)) - vec_y (position (ball s))
      else 0)"

definition anyBrickHit :: "State \<Rightarrow> bool" where
  "anyBrickHit s = (True \<in> set (map (isBallBounceOnBrick s) (bricks s)))"

definition mainState :: "State \<Rightarrow> Vector \<Rightarrow> State" where
  "mainState s ballVel =
     (let newP1Score = incrementScore (p1Score s) (isballp2Endzone s);
          newP2Score = incrementScore (p2Score s) (isballp1Endzone s)
      in s\<lparr> p1Score := newP1Score,
            p2Score := newP2Score,
            computerBar :=
              (if Math_sign (vec_x ballVel) \<noteq> 0 then
                 (computerBar s)\<lparr> position :=
                    alterY (position (computerBar s))
                      (if Math_sign (vec_y (position (computerBar s)) - vec_y (position (ball s))
                                       + BarHeight / 2) = - 1
                       then vec_y (position (computerBar s)) + computerDifficulty s
                       else vec_y (position (computerBar s)) - computerDifficulty s) \<rparr>
               else computerBar s),
            endOfGame :=
              (if newP1Score = maxScore then playerBarNum
               else if newP2Score = maxScore then computerBarNum
               else 0) \<rparr>)"

definition newBricksState :: "State \<Rightarrow> BrickBody list" where
  "newBricksState s = map (\<lambda>b. if isBallBounceOnBrick s b then setBrickOpacity b else b) (bricks s)"

definition objInteractionHandling :: "bool \<Rightarrow> State \<Rightarrow> error + State" where
  "objInteractionHandling rnd s =
     (case velocity (ball s) of
        None \<Rightarrow> Inl TypeError
      | Some ballVel \<Rightarrow>
          Inr (if isBreakout s then
                 (mainState s ballVel)
                   \<lparr> ball :=
                       (if isballp1Endzone s \<or> isballp2Endzone s then createBall rnd
                        else calculateBallBounce (ball s) ballVel (isballBounceOnBorder s)
                               (isballBounceOnLeftBar s \<or> isballBounceOnRightBar s)
                               (paddleAimVerticalError s) (anyBrickHit s)),
                     bricks :=
                       (if anyBrickHit s then filter brickToKeep (newBricksState s) else bricks s),
                     bricksToRemove :=
                       bricksToRemove s @ map getBrickID (filter brickToRemove (newBricksState s)) \<rparr>
               else
                 (mainState s ballVel)
                   \<lparr> ball :=
                       (if isballp1Endzone s \<or> isballp2Endzone s then createBall rnd
                        else calculateBallBounce (ball s) ballVel (isballBounceOnBorder s)
                               (isballBounceOnLeftBar s \<or> isballBounceOnRightBar s)
                               (paddleAimVerticalError s) False) \<rparr>))"

definition tick :: "bool \<Rightarrow> State \<Rightarrow> real \<Rightarrow> error + State" where
  "tick rnd s elapsed =
     (case moveObject (ball s) of
        Inl e \<Rightarrow> Inl e
      | Inr movedBall \<Rightarrow> objInteractionHandling rnd (s\<lparr> time := elapsed, ball := movedBall \<rparr>))"

subsection \<open>The reducer and its fold\<close>

fun reduceState :: "bool \<Rightarrow> bool \<Rightarrow> State \<Rightarrow> Event \<Rightarrow> error + State" where
  "reduceState r0 rnd s (Tick elapsed) = tick rnd s elapsed"
| "reduceState r0 rnd s (Slide direction) =
     Inr (s\<lparr> playerBar := (playerBar s)
            \<lparr> position :=
                (if vec_y (add (position (playerBar s)) (Vector 0 direction)) \<le> CanvasSize - BarHeight
                    \<and> vec_y (add (position (playerBar s)) (Vector 0 direction)) \<ge> Zero
                 then add (position (playerBar s)) (Vector 0 direction)
                 else position (playerBar s)) \<rparr> \<rparr>)"
| "reduceState r0 rnd s (Restart isRestart) = Inr (initialState r0)"
| "reduceState r0 rnd s (ToggleBreakout isBreak) = Inr (s\<lparr> isBreakout := isBreak \<rparr>)"
| "reduceState r0 rnd s (SetDifficulty difficVal) = Inr (s\<lparr> computerDifficulty := difficVal / 20 \<rparr>)"

text \<open>\<^verbatim>\<open>scan(reduceState, initialState)\<close>: the states emitted, one for each event, in order. Each
  event comes with the draw \<^verbatim>\<open>Math.random() > 0.5\<close> would give if the reducer made it. The
  stream stops at an error.\<close>

fun scan :: "bool \<Rightarrow> State \<Rightarrow> (bool \<times> Event) list \<Rightarrow> error + State list" where
  "scan r0 s [] = Inr []"
| "scan r0 s ((rnd, eve) # rest) =
     (case reduceState r0 rnd s eve of
        Inl e \<Rightarrow> Inl e
      | Inr s' \<Rightarrow> (case scan r0 s' rest of Inl e \<Rightarrow> Inl e | Inr ss \<Rightarrow> Inr (s' # ss)))"

text \<open>The states the subscriber is given. \<^verbatim>\<open>sub\<close> is the subscription of \<^verbatim>\<open>updateView\<close> to the scan;
  \<^verbatim>\<open>updateView\<close> calls \<^verbatim>\<open>sub.unsubscribe()\<close> when the state it is given has a truthy
  \<^verbatim>\<open>endOfGame\<close>, so that state is the last one reduced: the events after it are not folded.\<close>

fun subscription :: "bool \<Rightarrow> State \<Rightarrow> (bool \<times> Event) list \<Rightarrow> error + State list" where
  "subscription r0 s [] = Inr []"
| "subscription r0 s ((rnd, eve) # rest) =
     (case reduceState r0 rnd s eve of
        Inl e \<Rightarrow> Inl e
      | Inr s' \<Rightarrow>
          if endOfGame s' \<noteq> 0 then Inr [s']
          else (case subscription r0 s' rest of Inl e \<Rightarrow> Inl e | Inr ss \<Rightarrow> Inr (s' # ss)))"

text \<open>The states the fold can reach from the initial state, whether or not the subscriber
  has stopped it: every state the subscriber is given is one of them.\<close>

inductive reachable :: "bool \<Rightarrow> State \<Rightarrow> bool" for r0 :: bool where
  init: "reachable r0 (initialState r0)"
| step: "reachable r0 s \<Longrightarrow> reduceState r0 rnd s eve = Inr s' \<Longrightarrow> reachable r0 s'"

subsection \<open>Derived notions\<close>

text \<open>The rest of the definitions are not in the source: they name parts of the functions
  above, the runs of the fold, and the invariants of the reachable states.\<close>

text \<open>The state \<^verbatim>\<open>tick\<close> hands to \<^verbatim>\<open>objInteractionHandling\<close>: the time is set and the ball
  has moved by its velocity \<open>v\<close>.\<close>

definition advance :: "State \<Rightarrow> real \<Rightarrow> Vector \<Rightarrow> State" where
  "advance s elapsed v = s\<lparr> time := elapsed, ball := (ball s)\<lparr> position := add (position (ball s)) v \<rparr> \<rparr>"

text \<open>The \<^verbatim>\<open>ball\<close> field both branches of \<^verbatim>\<open>objInteractionHandling\<close> compute; \<open>brick\<close> is the
  last argument of \<^verbatim>\<open>calculateBallBounce\<close>.\<close>

definition nextBall :: "bool \<Rightarrow> State \<Rightarrow> Vector \<Rightarrow> bool \<Rightarrow> NewtonianBody" where
  "nextBall rnd m v brick =
     (if isballp1Endzone m \<or> isballp2Endzone m then createBall rnd
      else calculateBallBounce (ball m) v (isballBounceOnBorder m)
             (isballBounceOnLeftBar m \<or> isballBounceOnRightBar m)
             (paddleAimVerticalError m) brick)"

text \<open>The state \<^verbatim>\<open>objInteractionHandling\<close> returns when the ball has the velocity \<open>v\<close>.\<close>

definition stepState :: "bool \<Rightarrow> State \<Rightarrow> Vector \<Rightarrow> State" where
  "stepState rnd m v =
     (if isBreakout m then
        (mainState m v)
          \<lparr> ball := nextBall rnd m v (anyBrickHit m),
            bricks := (if anyBrickHit m then filter brickToKeep (newBricksState m) else bricks m),
            bricksToRemove :=
              bricksToRemove m @ map getBrickID (filter brickToRemove (newBricksState m)) \<rparr>
      else (mainState m v)\<lparr> ball := nextBall rnd m v False \<rparr>)"

text \<open>The last state of the fold (the accumulator of \<^verbatim>\<open>scan\<close>), or the error that stopped it.\<close>

fun reduceAll :: "bool \<Rightarrow> State \<Rightarrow> (bool \<times> Event) list \<Rightarrow> error + State" where
  "reduceAll r0 s [] = Inr s"
| "reduceAll r0 s ((rnd, eve) # rest) =
     (case reduceState r0 rnd s eve of
        Inl e \<Rightarrow> Inl e
      | Inr s' \<Rightarrow> reduceAll r0 s' rest)"

text \<open>\<^verbatim>\<open>interval(10).pipe(map(elapsed => new Tick(elapsed)))\<close> emits \<^verbatim>\<open>Tick(0)\<close>, \<^verbatim>\<open>Tick(1)\<close>, ...;
  \<open>ticks k n\<close> are the \<open>n\<close> ticks from \<^verbatim>\<open>Tick(k)\<close> on, each with the draw \<open>False\<close>
  (a new ball moves left).\<close>

fun ticks :: "nat \<Rightarrow> nat \<Rightarrow> (bool \<times> Event) list" where
  "ticks k 0 = []"
| "ticks k (Suc n) = (False, Tick (real k)) # ticks (Suc k) n"

text \<open>\<open>slides n d\<close> are \<open>n\<close> presses of an arrow key: \<^verbatim>\<open>Slide(-8)\<close> for \<^verbatim>\<open>ArrowUp\<close>,
  \<^verbatim>\<open>Slide(8)\<close> for \<^verbatim>\<open>ArrowDown\<close>.\<close>

fun slides :: "nat \<Rightarrow> real \<Rightarrow> (bool \<times> Event) list" where
  "slides 0 d = []"
| "slides (Suc n) d = (False, Slide d) # slides n d"

text \<open>A state of a game that never left Pong mode, with the default difficulty: the initial
  state but for the time \<open>t\<close>, the ball's position \<open>(x, y)\<close> and velocity \<open>(u, v)\<close>, the
  vertical positions \<open>pY\<close>, \<open>cY\<close> of the player's and the computer's paddle, the scores and
  \<^verbatim>\<open>endOfGame\<close>.\<close>

definition config ::
  "bool \<Rightarrow> real \<Rightarrow> real \<Rightarrow> real \<Rightarrow> real \<Rightarrow> real \<Rightarrow> real \<Rightarrow> real \<Rightarrow> real \<Rightarrow> real \<Rightarrow> real \<Rightarrow> State" where
  "config r0 t x y u v pY cY p1 p2 eog =
     (initialState r0)
       \<lparr> time := t,
         playerBar := (createBar playerBarNum)\<lparr> position := Vector (CanvasSize / 8) pY \<rparr>,
         computerBar := (createBar computerBarNum)\<lparr> position := Vector (7 * CanvasSize / 8) cY \<rparr>,
         ball := (createBall r0)\<lparr> position := Vector x y, velocity := Some (Vector u v) \<rparr>,
         p1Score := p1, p2Score := p2, endOfGame := eog \<rparr>"

text \<open>What a \<^verbatim>\<open>Tick\<close> makes of such a state, in numbers; \<open>(x, y)\<close> is the ball after its
  move.\<close>

definition tickConfig ::
  "bool \<Rightarrow> bool \<Rightarrow> real \<Rightarrow> real \<Rightarrow> real \<Rightarrow> real \<Rightarrow> real \<Rightarrow> real \<Rightarrow> real \<Rightarrow> real \<Rightarrow> real \<Rightarrow> State" where
  "tickConfig r0 rnd e x y u v pY cY p1 p2 =
     (let ez = (x \<le> 0 \<or> x \<ge> 600);
          L = (x \<le> 88 \<and> x \<ge> 65 \<and> y \<ge> pY \<and> y \<le> pY + 75);
          R = (x \<ge> 518 \<and> x \<le> 535 \<and> y \<ge> cY \<and> y \<le> cY + 75);
          B = (y \<le> 0 \<or> y \<ge> 600);
          n1 = p1 + (if x \<ge> 600 then 1 else 0);
          n2 = p2 + (if x \<le> 0 then 1 else 0)
      in config r0 e
           (if ez then 300 else x)
           (if ez then 300 else y)
           (if ez then (if rnd then 3 else - 3) else if L \<or> R then - u else u)
           (if ez then 0
            else if L then (y - pY - 75 / 2) * 2 / 15
            else if R then (y - cY - 75 / 2) * 2 / 15
            else if B then - v else v)
           pY
           (if u = 0 then cY else if cY - y + 75 / 2 < 0 then cY + 5 / 4 else cY - 5 / 4)
           n1 n2
           (if n1 = 7 then 1 else if n2 = 7 then 2 else 0))"

text \<open>The invariant of the bricks: every brick has one to four hits left, the ids of the
  bricks are distinct, no id is reported twice, and no reported id is the id of a brick.\<close>

definition bricksInv :: "State \<Rightarrow> bool" where
  "bricksInv s =
     (list_all (\<lambda>b. numberOfHitsLeft b \<in> {1, 2, 3, 4}) (bricks s)
      \<and> distinct (map brick_id (bricks s))
      \<and> distinct (bricksToRemove s)
      \<and> list_all (\<lambda>i. i \<notin> set (map brick_id (bricks s))) (bricksToRemove s))"

text \<open>Events other than \<^verbatim>\<open>Restart\<close>.\<close>

fun isRestart :: "Event \<Rightarrow> bool" where
  "isRestart (Restart b) = True"
| "isRestart eve = False"

text \<open>A game from the initial state with the ball served to the left, at the default
  difficulty, made of ticks and arrow keys only: 70 ticks, \<^verbatim>\<open>ArrowDown\<close> once, 288 ticks,
  \<^verbatim>\<open>ArrowUp\<close> 22 times, 99 ticks.\<close>

definition escapeTrace :: "(bool \<times> Event) list" where
  "escapeTrace =
     ticks 0 70 @ slides 1 8 @ ticks 70 100 @ ticks 170 100 @ ticks 270 88
       @ slides 22 (- 8) @ ticks 358 99"

text \<open>A game from the initial state with the ball served to the left: \<^verbatim>\<open>ArrowUp\<close> five times,
  then \<open>n\<close> ticks in which every new ball is served to the left too.\<close>

definition missTrace :: "nat \<Rightarrow> (bool \<times> Event) list" where
  "missTrace n = slides 5 (- 8) @ ticks 0 n"

text \<open>What the scores of a state make of \<^verbatim>\<open>endOfGame\<close> (the expression in the \<^verbatim>\<open>mainState\<close> of
  \<^verbatim>\<open>objInteractionHandling\<close>, on the scores of the state itself).\<close>

definition winner :: "State \<Rightarrow> real" where
  "winner s =
     (if p1Score s = maxScore then playerBarNum
      else if p2Score s = maxScore then computerBarNum
      else 0)"

text \<open>How an event other than \<^verbatim>\<open>Restart\<close> changes the scores from the state \<open>a\<close> before it to
  the state \<open>b\<close> after it: a \<^verbatim>\<open>Tick\<close> adds 1 to a score when the ball, advanced by its
  velocity, is in the endzone of that score, and 0 otherwise; any other event adds nothing.\<close>

definition scoreStep :: "Event \<Rightarrow> State \<Rightarrow> State \<Rightarrow> bool" where
  "scoreStep eve a b =
     (case eve of
        Tick elapsed \<Rightarrow>
          (case velocity (ball a) of
             None \<Rightarrow> False
           | Some v \<Rightarrow>
               p1Score b = p1Score a + (if vec_x (add (position (ball a)) v) \<ge> CanvasSize then 1 else 0)
               \<and> p2Score b = p2Score a + (if vec_x (add (position (ball a)) v) \<le> Zero then 1 else 0))
      | _ \<Rightarrow> p1Score b = p1Score a \<and> p2Score b = p2Score a)"

text \<open>A state \<open>config\<close> with the mode \<open>brk\<close>, the bricks \<open>bs\<close> and the reported ids \<open>rs\<close>.\<close>

definition bconfig ::
  "bool \<Rightarrow> real \<Rightarrow> real \<Rightarrow> real \<Rightarrow> real \<Rightarrow> real \<Rightarrow> real \<Rightarrow> real \<Rightarrow> real \<Rightarrow> real \<Rightarrow> real
     \<Rightarrow> bool \<Rightarrow> BrickBody list \<Rightarrow> real list \<Rightarrow> State" where
  "bconfig r0 t x y u v pY cY p1 p2 eog brk bs rs =
     (config r0 t x y u v pY cY p1 p2 eog)\<lparr> isBreakout := brk, bricks := bs, bricksToRemove := rs \<rparr>"

text \<open>A game in which a brick is destroyed: two ticks of Pong from \<^verbatim>\<open>Tick(k)\<close> on bring the
  ball, served to the left, next to the brick with id 8; breakout mode is switched on; in the
  next four ticks the ball hits that brick four times.\<close>

definition destroyGame :: "nat \<Rightarrow> (bool \<times> Event) list" where
  "destroyGame k = ticks k 2 @ (False, ToggleBreakout True) # ticks (k + 2) 4"

text \<open>That game, a \<^verbatim>\<open>Restart\<close>, and that game again.\<close>

definition replayTrace :: "(bool \<times> Event) list" where
  "replayTrace = destroyGame 0 @ (False, Restart True) # destroyGame 6"

text \<open>A game from the initial state with the ball served to the left, at the default
  difficulty: 70 ticks, \<^verbatim>\<open>ArrowUp\<close> three times, 288 ticks, \<^verbatim>\<open>ArrowUp\<close> 18 times, 77 ticks, and
  then the switch to breakout mode.\<close>

definition borderBrickTrace :: "(bool \<times> Event) list" where
  "borderBrickTrace =
     ticks 0 70 @ slides 3 (- 8) @ ticks 70 100 @ ticks 170 100 @ ticks 270 88
       @ slides 18 (- 8) @ ticks 358 77 @ [(False, ToggleBreakout True)]"

text \<open>The state that game ends in: breakout mode, all bricks whole, and a ball that, one tick
  later, touches the top border and overlaps the brick with id 1, away from both paddles and
  both endzones.\<close>

definition borderBrickState :: State where
  "borderBrickState =
     bconfig False 434 315 (68 / 375) 3 (- (592 / 375)) (189 / 2) (575 / 4) 0 0 0 True
       initialiseBricks []"

text \<open>The number of states the subscriber has seen after \<open>n\<close> earlier ones, and the last of
  them.\<close>

fun played :: "bool \<Rightarrow> nat \<Rightarrow> State \<Rightarrow> (bool \<times> Event) list \<Rightarrow> error + nat \<times> State" where
  "played r0 n s [] = Inr (n, s)"
| "played r0 n s ((rnd, eve) # rest) =
     (case reduceState r0 rnd s eve of
        Inl e \<Rightarrow> Inl e
      | Inr s' \<Rightarrow> if endOfGame s' \<noteq> 0 then Inr (n + 1, s') else played r0 (n + 1) s' rest)"

section \<open>Properties\<close>

subsection \<open>One step\<close>

lemma tick_Some:
  "velocity (ball s) = Some v \<Longrightarrow> tick rnd s e = Inr (stepState rnd (advance s e v) v)"
  by (simp add: tick_def moveObject_def objInteractionHandling_def nextBall_def stepState_def
        advance_def)

lemma tick_None: "velocity (ball s) = None \<Longrightarrow> tick rnd s e = Inl TypeError"
  by (simp add: tick_def moveObject_def)

lemma tick_Inr:
  assumes "tick rnd s e = Inr s'"
  obtains v where "velocity (ball s) = Some v" and "s' = stepState rnd (advance s e v) v"
proof (cases "velocity (ball s)")
  case None
  with assms show ?thesis by (simp add: tick_None)
next
  case (Some v)
  with assms tick_Some [OF Some, of rnd e] that show ?thesis by simp
qed

lemma advance_sel:
  "playerBar (advance s e v) = playerBar s"
  "computerBar (advance s e v) = computerBar s"
  "p1Score (advance s e v) = p1Score s"
  "p2Score (advance s e v) = p2Score s"
  "bricks (advance s e v) = bricks s"
  "bricksToRemove (advance s e v) = bricksToRemove s"
  "isBreakout (advance s e v) = isBreakout s"
  "computerDifficulty (advance s e v) = computerDifficulty s"
  "position (ball (advance s e v)) = add (position (ball s)) v"
  "velocity (ball (advance s e v)) = velocity (ball s)"
  "body_size (ball (advance s e v)) = body_size (ball s)"
  by (simp_all add: advance_def)

lemma mainState_sel:
  "playerBar (mainState m v) = playerBar m"
  "p1Score (mainState m v) = p1Score m + (if vec_x (position (ball m)) \<ge> CanvasSize then 1 else 0)"
  "p2Score (mainState m v) = p2Score m + (if vec_x (position (ball m)) \<le> 0 then 1 else 0)"
  "endOfGame (mainState m v) =
     (if p1Score (mainState m v) = maxScore then playerBarNum
      else if p2Score (mainState m v) = maxScore then computerBarNum else 0)"
  "vec_x (position (computerBar (mainState m v))) = vec_x (position (computerBar m))"
  "bricks (mainState m v) = bricks m"
  "bricksToRemove (mainState m v) = bricksToRemove m"
  "isBreakout (mainState m v) = isBreakout m"
  "computerDifficulty (mainState m v) = computerDifficulty m"
  by (simp_all add: mainState_def Let_def incrementScore_def isballp1Endzone_def
        isballp2Endzone_def Zero_def alterY_def)

lemma stepState_sel:
  "playerBar (stepState rnd m v) = playerBar m"
  "p1Score (stepState rnd m v) = p1Score m + (if vec_x (position (ball m)) \<ge> CanvasSize then 1 else 0)"
  "p2Score (stepState rnd m v) = p2Score m + (if vec_x (position (ball m)) \<le> 0 then 1 else 0)"
  "vec_x (position (computerBar (stepState rnd m v))) = vec_x (position (computerBar m))"
  "isBreakout (stepState rnd m v) = isBreakout m"
  "computerDifficulty (stepState rnd m v) = computerDifficulty m"
  "ball (stepState rnd m v) = nextBall rnd m v (isBreakout m \<and> anyBrickHit m)"
  by (simp_all add: stepState_def mainState_sel)

lemma stepState_endOfGame:
  "endOfGame (stepState rnd m v) =
     (if p1Score (stepState rnd m v) = maxScore then playerBarNum
      else if p2Score (stepState rnd m v) = maxScore then computerBarNum else 0)"
  using mainState_sel(4) [of m v] by (simp add: stepState_def)

lemma nextBall_endzone:
  "vec_x (position (ball m)) \<le> 0 \<or> vec_x (position (ball m)) \<ge> CanvasSize \<Longrightarrow>
     nextBall rnd m v brick = createBall rnd"
  by (auto simp: nextBall_def isballp1Endzone_def isballp2Endzone_def Zero_def)

lemma calculateBallBounce_velocity_x:
  "\<exists>w. velocity (calculateBallBounce b bv border paddle err brick) = Some w \<and> \<bar>vec_x w\<bar> = \<bar>vec_x bv\<bar>"
  by (simp add: calculateBallBounce_def calcBouncedVelocity_def flipX_def flipY_def)

lemma nextBall_velocity_x:
  "\<bar>vec_x v\<bar> = 3 \<Longrightarrow> \<exists>w. velocity (nextBall rnd m v brick) = Some w \<and> \<bar>vec_x w\<bar> = 3"
  using calculateBallBounce_velocity_x [of "ball m" v]
  by (simp add: nextBall_def createBall_def)

subsection \<open>Runs\<close>

lemma reduceAll_reachable:
  "reachable r0 s \<Longrightarrow> reduceAll r0 s evs = Inr s' \<Longrightarrow> reachable r0 s'"
proof (induction evs arbitrary: s)
  case Nil
  then show ?case by simp
next
  case (Cons a evs)
  obtain rnd eve where a: "a = (rnd, eve)" by (cases a)
  from Cons.prems(2) obtain t where t: "reduceState r0 rnd s eve = Inr t" and r: "reduceAll r0 t evs = Inr s'"
    by (auto simp: a split: sum.splits)
  from Cons.prems(1) t have "reachable r0 t" by (rule reachable.step)
  with r show ?case by (rule Cons.IH [rotated])
qed

lemma scan_reachable:
  "reachable r0 s \<Longrightarrow> scan r0 s evs = Inr ss \<Longrightarrow> t \<in> set ss \<Longrightarrow> reachable r0 t"
proof (induction evs arbitrary: s ss)
  case Nil
  then show ?case by simp
next
  case (Cons a evs)
  obtain rnd eve where a: "a = (rnd, eve)" by (cases a)
  from Cons.prems(2) obtain s1 ss1 where s1: "reduceState r0 rnd s eve = Inr s1"
    and ss1: "scan r0 s1 evs = Inr ss1" and ss: "ss = s1 # ss1"
    by (auto simp: a split: sum.splits)
  from Cons.prems(1) s1 have r1: "reachable r0 s1" by (rule reachable.step)
  show ?case
  proof (cases "t = s1")
    case True
    with r1 show ?thesis by simp
  next
    case False
    with Cons.prems(3) ss have "t \<in> set ss1" by simp
    with r1 ss1 show ?thesis by (rule Cons.IH)
  qed
qed

subsection \<open>Invariants\<close>

lemma reachable_ball_velocity:
  "reachable r0 s \<Longrightarrow> \<exists>v. velocity (ball s) = Some v \<and> \<bar>vec_x v\<bar> = 3"
proof (induction rule: reachable.induct)
  case init
  show ?case by (simp add: initialState_def createBall_def)
next
  case (step s rnd eve s')
  from step.IH obtain v where v: "velocity (ball s) = Some v" "\<bar>vec_x v\<bar> = 3" by blast
  show ?case
  proof (cases eve)
    case (Tick e)
    with step.hyps(2) v have "s' = stepState rnd (advance s e v) v"
      by (simp add: tick_Some)
    then show ?thesis using nextBall_velocity_x [OF v(2)] by (simp add: stepState_sel)
  next
    case (Restart b)
    with step.hyps(2) show ?thesis by (auto simp: initialState_def createBall_def)
  qed (use step.hyps(2) v in auto)
qed

lemma reduceState_total:
  assumes "reachable r0 s"
  shows "\<exists>s'. reduceState r0 rnd s eve = Inr s'"
proof -
  from reachable_ball_velocity [OF assms] obtain v where "velocity (ball s) = Some v" by blast
  then show ?thesis by (cases eve) (simp_all add: tick_Some)
qed

lemma reachable_paddle_x:
  "reachable r0 s \<Longrightarrow>
     vec_x (position (playerBar s)) = CanvasSize / 8 \<and>
     vec_x (position (computerBar s)) = 7 * CanvasSize / 8"
proof (induction rule: reachable.induct)
  case init
  show ?case by (simp add: initialState_def createBar_def playerBarNum_def computerBarNum_def)
next
  case (step s rnd eve s')
  show ?case
  proof (cases eve)
    case (Tick e)
    with step.hyps(2) have "tick rnd s e = Inr s'" by simp
    then show ?thesis using step.IH
      by (elim tick_Inr) (simp add: stepState_sel advance_sel)
  next
    case (Slide d)
    with step.hyps(2) step.IH show ?thesis by (auto simp: add_def)
  next
    case (Restart b)
    with step.hyps(2) show ?thesis
      by (auto simp: initialState_def createBar_def playerBarNum_def computerBarNum_def)
  qed (use step.hyps(2) step.IH in auto)
qed

lemma reachable_playerBar_y:
  "reachable r0 s \<Longrightarrow>
     0 \<le> vec_y (position (playerBar s)) \<and> vec_y (position (playerBar s)) \<le> CanvasSize - BarHeight"
proof (induction rule: reachable.induct)
  case init
  show ?case by (simp add: initialState_def createBar_def Constants_defs)
next
  case (step s rnd eve s')
  show ?case
  proof (cases eve)
    case (Tick e)
    with step.hyps(2) have "tick rnd s e = Inr s'" by simp
    then show ?thesis using step.IH
      by (elim tick_Inr) (simp add: stepState_sel advance_sel)
  next
    case (Slide d)
    with step.hyps(2) step.IH show ?thesis by (auto simp: Zero_def)
  next
    case (Restart b)
    with step.hyps(2) show ?thesis
      by (auto simp: initialState_def createBar_def Constants_defs)
  qed (use step.hyps(2) step.IH in auto)
qed

lemma reachable_endOfGame:
  "reachable r0 s \<Longrightarrow>
     endOfGame s = (if p1Score s = maxScore then playerBarNum
                    else if p2Score s = maxScore then computerBarNum else 0)"
proof (induction rule: reachable.induct)
  case init
  show ?case by (simp add: initialState_def maxScore_def)
next
  case (step s rnd eve s')
  show ?case
  proof (cases eve)
    case (Tick e)
    with step.hyps(2) have "tick rnd s e = Inr s'" by simp
    then show ?thesis
      by (elim tick_Inr) (simp only: stepState_endOfGame)
  next
    case (Restart b)
    with step.hyps(2) show ?thesis by (auto simp: initialState_def maxScore_def)
  qed (use step.hyps(2) step.IH in auto)
qed


subsection \<open>Evaluating a game of Pong\<close>

lemmas step_defs = tick_def moveObject_def objInteractionHandling_def mainState_def
   createBall_def createBar_def Constants_defs Vector_defs isballp1Endzone_def isballp2Endzone_def 
   isballBounceOnLeftBar_def isballBounceOnRightBar_def isballBounceOnBorder_def paddleAimVerticalError_def
   calculateBallBounce_def incrementScore_def Math_sign_def calcBouncedVelocity_def

lemma reduceAll_append:
  "reduceAll r0 s (xs @ ys) =
     (case reduceAll r0 s xs of Inl e \<Rightarrow> Inl e | Inr t \<Rightarrow> reduceAll r0 t ys)"
  by (induction xs arbitrary: s) (auto split: sum.splits)

lemma ticks_numeral: "ticks k (numeral n) = (False, Tick (real k)) # ticks (k + 1) (pred_numeral n)"
  by (simp add: numeral_eq_Suc)

lemma ticks_1: "ticks k 1 = [(False, Tick (real k))]"
  using ticks.simps(2) [of k 0] by simp

lemma slides_numeral: "slides (numeral n) d = (False, Slide d) # slides (pred_numeral n) d"
  by (simp add: numeral_eq_Suc)

lemma slides_1: "slides 1 d = [(False, Slide d)]"
  using slides.simps(2) [of 0 d] by simp

lemma tick_config:
  "tick rnd (config r0 t x y u v pY cY p1 p2 eog) e =
     Inr (tickConfig r0 rnd e (x + u) (y + v) u v pY cY p1 p2)"
  by (simp add: config_def tickConfig_def step_defs initialState_def Let_def)

lemma slide_config:
  "reduceState r0 rnd (config r0 t x y u v pY cY p1 p2 eog) (Slide d) =
     Inr (config r0 t x y u v (if pY + d \<le> 525 \<and> pY + d \<ge> 0 then pY + d else pY) cY p1 p2 eog)"
  by (simp add: config_def step_defs initialState_def)

lemma init_config:
  "initialState r0 = config r0 0 300 300 (if r0 then 3 else - 3) 0 (525 / 2) (525 / 2) 0 0 0"
  by (simp add: config_def step_defs initialState_def)

lemma restart_config:
  "reduceState r0 rnd s (Restart b) =
     Inr (config r0 0 300 300 (if r0 then 3 else - 3) 0 (525 / 2) (525 / 2) 0 0 0)"
  by (simp add: init_config [symmetric])

lemma reduceAll_tick_config:
  "reduceAll r0 (config r0 t x y u v pY cY p1 p2 eog) ((rnd, Tick e) # rest) =
     reduceAll r0 (tickConfig r0 rnd e (x + u) (y + v) u v pY cY p1 p2) rest"
  by (simp add: tick_config)

lemma reduceAll_slide_config:
  "reduceAll r0 (config r0 t x y u v pY cY p1 p2 eog) ((rnd, Slide d) # rest) =
     reduceAll r0 (config r0 t x y u v (if pY + d \<le> 525 \<and> pY + d \<ge> 0 then pY + d else pY)
                     cY p1 p2 eog) rest"
  by (simp add: slide_config del: reduceState.simps)

lemmas run_simps =
  init_config ticks_numeral ticks_1 slides_numeral slides_1 reduceAll_tick_config
  reduceAll_slide_config tickConfig_def Let_def

text \<open>If the player moves the paddle five steps up and then leaves it there, a ball served to the
  left passes it, and the computer scores after a hundred ticks.\<close>

lemma round_miss:
  "reduceAll False (config False t 300 300 (- 3) 0 (445 / 2) (525 / 2) 0 n eog) (ticks k 100) =
     Inr (config False (99 + real k) 300 300 (- 3) 0 (445 / 2) (525 / 2) 0 (n + 1)
            (if n + 1 = 7 then 2 else 0))"
  by (simp add: run_simps del: reduceAll.simps(2) reduceState.simps)

text \<open>A rally in which the player sends the ball upwards twice; the computer's paddle follows
  it.\<close>

lemma escape_seg1:
  "reduceAll False (initialState False)
     (ticks 0 70) =
   Inr (config False 69 90 300 (- 3) 0 (525 / 2) (525 / 2) 0 0 0)"
  by (simp add: run_simps del: reduceAll.simps(2) reduceState.simps)

lemma escape_seg2:
  "reduceAll False (config False 69 90 300 (- 3) 0 (525 / 2) (525 / 2) 0 0 0)
     (slides 1 8) =
   Inr (config False 69 90 300 (- 3) 0 (541 / 2) (525 / 2) 0 0 0)"
  by (simp add: run_simps del: reduceAll.simps(2) reduceState.simps)

lemma escape_seg3:
  "reduceAll False (config False 69 90 300 (- 3) 0 (541 / 2) (525 / 2) 0 0 0)
     (ticks 70 100) =
   Inr (config False 169 384 (972 / 5) 3 (- (16 / 15)) (541 / 2) (315 / 2) 0 0 0)"
  by (simp add: run_simps del: reduceAll.simps(2) reduceState.simps)

lemma escape_seg4:
  "reduceAll False (config False 169 384 (972 / 5) 3 (- (16 / 15)) (541 / 2) (315 / 2) 0 0 0)
     (ticks 170 100) =
   Inr (config False 269 354 (415 / 3) (- 3) (- (11 / 75)) (541 / 2) 100 0 0 0)"
  by (simp add: run_simps del: reduceAll.simps(2) reduceState.simps)

lemma escape_seg5:
  "reduceAll False (config False 269 354 (415 / 3) (- 3) (- (11 / 75)) (541 / 2) 100 0 0 0)
     (ticks 270 88) =
   Inr (config False 357 90 (9407 / 75) (- 3) (- (11 / 75)) (541 / 2) (175 / 2) 0 0 0)"
  by (simp add: run_simps del: reduceAll.simps(2) reduceState.simps)

lemma escape_seg6:
  "reduceAll False (config False 357 90 (9407 / 75) (- 3) (- (11 / 75)) (541 / 2) (175 / 2) 0 0 0)
     (slides 22 (- 8)) =
   Inr (config False 357 90 (9407 / 75) (- 3) (- (11 / 75)) (189 / 2) (175 / 2) 0 0 0)"
  by (simp add: run_simps del: reduceAll.simps(2) reduceState.simps)

lemma escape_seg7:
  "reduceAll False (config False 357 90 (9407 / 75) (- 3) (- (11 / 75)) (189 / 2) (175 / 2) 0 0 0)
     (ticks 358 99) =
   Inr (config False 456 381 (4684 / 125) 3 (- (112 / 125)) (189 / 2) (- (5 / 4)) 0 0 0)"
  by (simp add: run_simps del: reduceAll.simps(2) reduceState.simps)

text \<open>A rally in which the player sends the ball down and then up to the top border, above
  the bricks.\<close>

lemma border_seg2:
  "reduceAll False (config False 69 90 300 (- 3) 0 (525 / 2) (525 / 2) 0 0 0)
     (slides 3 (- 8)) =
   Inr (config False 69 90 300 (- 3) 0 (477 / 2) (525 / 2) 0 0 0)"
  by (simp add: run_simps del: reduceAll.simps(2) reduceState.simps)

lemma border_seg3:
  "reduceAll False (config False 69 90 300 (- 3) 0 (477 / 2) (525 / 2) 0 0 0)
     (ticks 70 100) =
   Inr (config False 169 384 (2924 / 5) 3 (- (16 / 5)) (477 / 2) 385 0 0 0)"
  by (simp add: run_simps del: reduceAll.simps(2) reduceState.simps)

lemma border_seg4:
  "reduceAll False (config False 169 384 (2924 / 5) 3 (- (16 / 5)) (477 / 2) 385 0 0 0)
     (ticks 170 100) =
   Inr (config False 269 354 (955 / 3) (- 3) (- (167 / 75)) (477 / 2) 350 0 0 0)"
  by (simp add: run_simps del: reduceAll.simps(2) reduceState.simps)

lemma border_seg5:
  "reduceAll False (config False 269 354 (955 / 3) (- 3) (- (167 / 75)) (477 / 2) 350 0 0 0)
     (ticks 270 88) =
   Inr (config False 357 90 (9179 / 75) (- 3) (- (167 / 75)) (477 / 2) 240 0 0 0)"
  by (simp add: run_simps del: reduceAll.simps(2) reduceState.simps)

lemma border_seg6:
  "reduceAll False (config False 357 90 (9179 / 75) (- 3) (- (167 / 75)) (477 / 2) 240 0 0 0)
     (slides 18 (- 8)) =
   Inr (config False 357 90 (9179 / 75) (- 3) (- (167 / 75)) (189 / 2) 240 0 0 0)"
  by (simp add: run_simps del: reduceAll.simps(2) reduceState.simps)

lemma border_seg7:
  "reduceAll False (config False 357 90 (9179 / 75) (- 3) (- (167 / 75)) (189 / 2) 240 0 0 0)
     (ticks 358 77) =
   Inr (config False 434 315 (68 / 375) 3 (- (592 / 375)) (189 / 2) (575 / 4) 0 0 0)"
  by (simp add: run_simps del: reduceAll.simps(2) reduceState.simps)

lemma reachable_config:
  "reduceAll r0 (initialState r0) evs = Inr s \<Longrightarrow> reachable r0 s"
  by (rule reduceAll_reachable [OF reachable.init])

lemma escapeTrace_run:
  "reduceAll False (initialState False) escapeTrace =
     Inr (config False 456 381 (4684 / 125) 3 (- (112 / 125)) (189 / 2) (- (5 / 4)) 0 0 0)"
  unfolding escapeTrace_def reduceAll_append escape_seg1 escape_seg2 escape_seg3 escape_seg4
    escape_seg5 escape_seg6 escape_seg7 sum.case ..

lemma config_sel:
  "time (config r0 t x y u v pY cY p1 p2 eog) = t"
  "position (ball (config r0 t x y u v pY cY p1 p2 eog)) = Vector x y"
  "velocity (ball (config r0 t x y u v pY cY p1 p2 eog)) = Some (Vector u v)"
  "position (playerBar (config r0 t x y u v pY cY p1 p2 eog)) = Vector (CanvasSize / 8) pY"
  "position (computerBar (config r0 t x y u v pY cY p1 p2 eog)) = Vector (7 * CanvasSize / 8) cY"
  "p1Score (config r0 t x y u v pY cY p1 p2 eog) = p1"
  "p2Score (config r0 t x y u v pY cY p1 p2 eog) = p2"
  "endOfGame (config r0 t x y u v pY cY p1 p2 eog) = eog"
  "isBreakout (config r0 t x y u v pY cY p1 p2 eog) = False"
  by (simp_all add: config_def initialState_def)

lemma ticks_append: "ticks k (m + n) = ticks k m @ ticks (k + m) n"
  by (induction m arbitrary: k) simp_all

lemma rounds_miss:
  "reduceAll False (config False t 300 300 (- 3) 0 (445 / 2) (525 / 2) 0 n eog)
       (ticks k (100 * Suc j)) =
     Inr (config False (99 + real (k + 100 * j)) 300 300 (- 3) 0 (445 / 2) (525 / 2) 0
            (n + 1 + real j) (if n + 1 + real j = 7 then 2 else 0))"
proof (induction j arbitrary: t n eog k)
  case 0
  show ?case using round_miss [of t n eog k] by simp
next
  case (Suc j)
  have split: "ticks k (100 * Suc (Suc j)) = ticks k 100 @ ticks (k + 100) (100 * Suc j)"
    using ticks_append [of k 100 "100 * Suc j"] by simp
  have a1: "99 + real (k + 100 + 100 * j) = 99 + real (k + 100 * Suc j)" by simp
  have a2: "n + 1 + 1 + real j = n + 1 + real (Suc j)" by simp
  show ?case
    unfolding split reduceAll_append round_miss sum.case Suc.IH a1 a2 ..
qed

lemma missTrace_slides:
  "reduceAll False (initialState False) (slides 5 (- 8)) =
     Inr (config False 0 300 300 (- 3) 0 (445 / 2) (525 / 2) 0 0 0)"
  by (simp add: run_simps del: reduceAll.simps(2) reduceState.simps)

lemma missTrace_run:
  "reduceAll False (initialState False) (missTrace (100 * Suc j)) =
     Inr (config False (99 + real (100 * j)) 300 300 (- 3) 0 (445 / 2) (525 / 2) 0
            (1 + real j) (if 1 + real j = 7 then 2 else 0))"
  using rounds_miss [of 0 0 0 0 j]
  unfolding missTrace_def reduceAll_append missTrace_slides sum.case by simp

lemma missTrace_100: "reduceAll False (initialState False) (missTrace 100) =
     Inr (config False 99 300 300 (- 3) 0 (445 / 2) (525 / 2) 0 1 0)"
  using missTrace_run [of 0] by simp

subsection \<open>Scores along a run\<close>

lemma scan_total:
  "reachable r0 s \<Longrightarrow> \<exists>ss. scan r0 s evs = Inr ss \<and> length ss = length evs"
proof (induction evs arbitrary: s)
  case Nil
  show ?case by simp
next
  case (Cons a evs)
  obtain rnd eve where a: "a = (rnd, eve)" by (cases a)
  from reduceState_total [OF Cons.prems] obtain s1 where s1: "reduceState r0 rnd s eve = Inr s1"
    by blast
  with Cons.prems have "reachable r0 s1" by (rule reachable.step)
  from Cons.IH [OF this] obtain ss where "scan r0 s1 evs = Inr ss" "length ss = length evs"
    by blast
  with s1 show ?case by (simp add: a)
qed

lemma reduceState_scoreStep:
  assumes "\<not> isRestart eve" and "reduceState r0 rnd s eve = Inr s'"
  shows "scoreStep eve s s'"
proof (cases eve)
  case (Tick e)
  with assms(2) have "tick rnd s e = Inr s'" by simp
  then show ?thesis
    by (elim tick_Inr) (simp add: scoreStep_def Tick stepState_sel advance_sel Zero_def)
qed (use assms in \<open>auto simp: scoreStep_def\<close>)

lemma scoreStep_mono:
  "scoreStep eve a b \<Longrightarrow> p1Score a \<le> p1Score b \<and> p2Score a \<le> p2Score b"
  by (auto simp: scoreStep_def split: Event.splits option.splits)

lemma scan_config_witness:
  "scan False (config False 98 3 300 (- 3) 0 (445 / 2) (1045 / 4) 0 0 0)
       [(False, Tick 99), (False, Slide 8)] =
     Inr [config False 99 300 300 (- 3) 0 (445 / 2) (525 / 2) 0 1 0,
          config False 99 300 300 (- 3) 0 (461 / 2) (525 / 2) 0 1 0]"
  by (simp add: tick_config slide_config tickConfig_def Let_def del: reduceState.simps(2))

subsection \<open>The game up to its end\<close>

lemma reduceState_not_both:
  assumes "reduceState r0 rnd s eve = Inr s'"
    and "p1Score s \<noteq> maxScore" and "p2Score s \<noteq> maxScore"
  shows "\<not> (p1Score s' = maxScore \<and> p2Score s' = maxScore)"
proof (cases eve)
  case (Tick e)
  with assms(1) have "tick rnd s e = Inr s'" by simp
  then show ?thesis using assms(2,3)
    by (elim tick_Inr) (auto simp: stepState_sel advance_sel CanvasSize_def split: if_splits)
next
  case (Restart b)
  with assms(1) show ?thesis by (auto simp: initialState_def maxScore_def)
qed (use assms in auto)

lemma winner_0_iff: "winner s = 0 \<longleftrightarrow> p1Score s \<noteq> maxScore \<and> p2Score s \<noteq> maxScore"
  by (simp add: winner_def Constants_defs)

lemma subscription_props:
  assumes "reachable r0 s" and "p1Score s \<noteq> maxScore" and "p2Score s \<noteq> maxScore"
  shows "\<exists>ss. subscription r0 s evs = Inr ss
     \<and> (\<forall>i<length ss.
          endOfGame (ss ! i) = winner (ss ! i)
          \<and> \<not> (p1Score (ss ! i) = maxScore \<and> p2Score (ss ! i) = maxScore)
          \<and> (Suc i < length ss \<longrightarrow> endOfGame (ss ! i) = 0))"
  using assms
proof (induction evs arbitrary: s)
  case Nil
  show ?case by simp
next
  case (Cons a evs)
  obtain rnd eve where a: "a = (rnd, eve)" by (cases a)
  from reduceState_total [OF Cons.prems(1)] obtain s1 where s1: "reduceState r0 rnd s eve = Inr s1"
    by blast
  with Cons.prems(1) have r1: "reachable r0 s1" by (rule reachable.step)
  from reachable_endOfGame [OF r1] have w1: "endOfGame s1 = winner s1" by (simp add: winner_def)
  from reduceState_not_both [OF s1 Cons.prems(2,3)]
  have nb: "\<not> (p1Score s1 = maxScore \<and> p2Score s1 = maxScore)" .
  show ?case
  proof (cases "endOfGame s1 = 0")
    case False
    with s1 have "subscription r0 s (a # evs) = Inr [s1]" by (simp add: a)
    with w1 nb show ?thesis by simp
  next
    case True
    with w1 have "p1Score s1 \<noteq> maxScore" "p2Score s1 \<noteq> maxScore"
      by (simp_all add: winner_0_iff)
    from Cons.IH [OF r1 this] obtain ss1 where ss1: "subscription r0 s1 evs = Inr ss1"
      and p: "\<forall>i<length ss1. endOfGame (ss1 ! i) = winner (ss1 ! i)
          \<and> \<not> (p1Score (ss1 ! i) = maxScore \<and> p2Score (ss1 ! i) = maxScore)
          \<and> (Suc i < length ss1 \<longrightarrow> endOfGame (ss1 ! i) = 0)"
      by blast
    from s1 True ss1 have eq: "subscription r0 s (a # evs) = Inr (s1 # ss1)" by (simp add: a)
    have "endOfGame ((s1 # ss1) ! i) = winner ((s1 # ss1) ! i)
          \<and> \<not> (p1Score ((s1 # ss1) ! i) = maxScore \<and> p2Score ((s1 # ss1) ! i) = maxScore)
          \<and> (Suc i < length (s1 # ss1) \<longrightarrow> endOfGame ((s1 # ss1) ! i) = 0)"
      if "i < length (s1 # ss1)" for i
    proof (cases i)
      case 0
      with w1 nb True show ?thesis by simp
    next
      case (Suc j)
      with that have "j < length ss1" by simp
      with p have "endOfGame (ss1 ! j) = winner (ss1 ! j)
          \<and> \<not> (p1Score (ss1 ! j) = maxScore \<and> p2Score (ss1 ! j) = maxScore)
          \<and> (Suc j < length ss1 \<longrightarrow> endOfGame (ss1 ! j) = 0)"
        by blast
      then show ?thesis by (auto simp: Suc)
    qed
    with eq show ?thesis by blast
  qed
qed

lemma subscription_played:
  "subscription r0 s evs = Inr ss \<Longrightarrow> played r0 n s evs = Inr (n + length ss, last (s # ss))"
proof (induction evs arbitrary: s ss n)
  case Nil
  then show ?case by simp
next
  case (Cons a evs)
  obtain rnd eve where a: "a = (rnd, eve)" by (cases a)
  from Cons.prems obtain s1 where s1: "reduceState r0 rnd s eve = Inr s1"
    by (auto simp: a split: sum.splits)
  show ?case
  proof (cases "endOfGame s1 = 0")
    case False
    with Cons.prems s1 show ?thesis by (auto simp: a)
  next
    case True
    with Cons.prems s1 obtain ss1 where ss1: "subscription r0 s1 evs = Inr ss1" and ss: "ss = s1 # ss1"
      by (auto simp: a split: sum.splits)
    from Cons.IH [OF ss1, of "n + 1"] True s1 show ?thesis by (simp add: a ss)
  qed
qed

lemma played_tick_config:
  "played r0 n (config r0 t x y u v pY cY p1 p2 eog) ((rnd, Tick e) # rest) =
     (let c = tickConfig r0 rnd e (x + u) (y + v) u v pY cY p1 p2
      in if endOfGame c \<noteq> 0 then Inr (n + 1, c) else played r0 (n + 1) c rest)"
  by (simp add: tick_config)

lemma played_slide_config:
  "played r0 n (config r0 t x y u v pY cY p1 p2 eog) ((rnd, Slide d) # rest) =
     (let c = config r0 t x y u v (if pY + d \<le> 525 \<and> pY + d \<ge> 0 then pY + d else pY)
                cY p1 p2 eog
      in if endOfGame c \<noteq> 0 then Inr (n + 1, c) else played r0 (n + 1) c rest)"
  by (simp add: slide_config Let_def del: reduceState.simps)

lemma played_append:
  "played r0 n s xs = Inr (m, t) \<Longrightarrow> endOfGame t = 0 \<Longrightarrow>
     played r0 n s (xs @ ys) = played r0 m t ys"
proof (induction xs arbitrary: n s)
  case Nil
  then show ?case by simp
next
  case (Cons a xs)
  obtain rnd eve where a: "a = (rnd, eve)" by (cases a)
  from Cons.prems(1) obtain s1 where s1: "reduceState r0 rnd s eve = Inr s1"
    by (auto simp: a split: sum.splits)
  show ?case
  proof (cases "endOfGame s1 = 0")
    case False
    with Cons.prems s1 show ?thesis by (auto simp: a)
  next
    case True
    with Cons.prems(1) s1 have "played r0 (n + 1) s1 xs = Inr (m, t)" by (simp add: a)
    from Cons.IH [OF this Cons.prems(2)] True s1 show ?thesis by (simp add: a)
  qed
qed

lemma played_stop:
  "played r0 n s xs = Inr (m, t) \<Longrightarrow> endOfGame t \<noteq> 0 \<Longrightarrow> xs \<noteq> [] \<Longrightarrow>
     played r0 n s (xs @ ys) = Inr (m, t)"
proof (induction xs arbitrary: n s)
  case Nil
  then show ?case by simp
next
  case (Cons a xs)
  obtain rnd eve where a: "a = (rnd, eve)" by (cases a)
  from Cons.prems(1) obtain s1 where s1: "reduceState r0 rnd s eve = Inr s1"
    by (auto simp: a split: sum.splits)
  show ?case
  proof (cases "endOfGame s1 = 0")
    case False
    with Cons.prems s1 show ?thesis by (auto simp: a)
  next
    case True
    with Cons.prems(1) s1 have p: "played r0 (n + 1) s1 xs = Inr (m, t)" by (simp add: a)
    with True Cons.prems(2) have "xs \<noteq> []" by auto
    from Cons.IH [OF p Cons.prems(2) this] True s1 show ?thesis by (simp add: a)
  qed
qed

lemmas played_simps =
  init_config ticks_numeral ticks_1 slides_numeral slides_1 played_tick_config
  played_slide_config tickConfig_def Let_def config_sel

lemma played_slides:
  "played False 0 (initialState False) (slides 5 (- 8)) =
     Inr (5, config False 0 300 300 (- 3) 0 (445 / 2) (525 / 2) 0 0 0)"
  by (simp add: played_simps del: played.simps(2) reduceState.simps)

lemma played_round1:
  "played False 5 (config False 0 300 300 (- 3) 0 (445 / 2) (525 / 2) 0 0 0) (ticks 0 100) =
     Inr (105, config False 99 300 300 (- 3) 0 (445 / 2) (525 / 2) 0 1 0)"
  by (simp add: played_simps del: played.simps(2) reduceState.simps)

lemma played_round2:
  "played False 105 (config False 99 300 300 (- 3) 0 (445 / 2) (525 / 2) 0 1 0) (ticks 100 100) =
     Inr (205, config False 199 300 300 (- 3) 0 (445 / 2) (525 / 2) 0 2 0)"
  by (simp add: played_simps del: played.simps(2) reduceState.simps)

lemma played_round3:
  "played False 205 (config False 199 300 300 (- 3) 0 (445 / 2) (525 / 2) 0 2 0) (ticks 200 100) =
     Inr (305, config False 299 300 300 (- 3) 0 (445 / 2) (525 / 2) 0 3 0)"
  by (simp add: played_simps del: played.simps(2) reduceState.simps)

lemma played_round4:
  "played False 305 (config False 299 300 300 (- 3) 0 (445 / 2) (525 / 2) 0 3 0) (ticks 300 100) =
     Inr (405, config False 399 300 300 (- 3) 0 (445 / 2) (525 / 2) 0 4 0)"
  by (simp add: played_simps del: played.simps(2) reduceState.simps)

lemma played_round5:
  "played False 405 (config False 399 300 300 (- 3) 0 (445 / 2) (525 / 2) 0 4 0) (ticks 400 100) =
     Inr (505, config False 499 300 300 (- 3) 0 (445 / 2) (525 / 2) 0 5 0)"
  by (simp add: played_simps del: played.simps(2) reduceState.simps)

lemma played_round6:
  "played False 505 (config False 499 300 300 (- 3) 0 (445 / 2) (525 / 2) 0 5 0) (ticks 500 100) =
     Inr (605, config False 599 300 300 (- 3) 0 (445 / 2) (525 / 2) 0 6 0)"
  by (simp add: played_simps del: played.simps(2) reduceState.simps)

lemma played_round7:
  "played False 605 (config False 599 300 300 (- 3) 0 (445 / 2) (525 / 2) 0 6 0) (ticks 600 100) =
     Inr (705, config False 699 300 300 (- 3) 0 (445 / 2) (525 / 2) 0 7 2)"
  by (simp add: played_simps del: played.simps(2) reduceState.simps)

lemma missTrace_played:
  "played False 0 (initialState False) (missTrace 800) =
     Inr (705, config False 699 300 300 (- 3) 0 (445 / 2) (525 / 2) 0 7 2)"
proof -
  have split: "missTrace 800 =
      slides 5 (- 8) @ ticks 0 100 @ ticks 100 100 @ ticks 200 100 @ ticks 300 100
        @ ticks 400 100 @ ticks 500 100 @ ticks 600 100 @ ticks 700 100"
    using ticks_append [of 0 100 700] ticks_append [of 100 100 600] ticks_append [of 200 100 500]
      ticks_append [of 300 100 400] ticks_append [of 400 100 300] ticks_append [of 500 100 200]
      ticks_append [of 600 100 100]
    by (simp add: missTrace_def del: ticks.simps)
  have e: "endOfGame (config False t 300 300 (- 3) 0 (445 / 2) (525 / 2) 0 n 0) = 0" for t n
    by (simp add: config_sel)
  have ne: "ticks 600 100 \<noteq> []" by (simp add: ticks_numeral)
  have last: "played False 605 (config False 599 300 300 (- 3) 0 (445 / 2) (525 / 2) 0 6 0)
      (ticks 600 100 @ ticks 700 100) =
      Inr (705, config False 699 300 300 (- 3) 0 (445 / 2) (525 / 2) 0 7 2)"
    by (rule played_stop [OF played_round7 _ ne]) (simp add: config_sel)
  show ?thesis
    unfolding split
      played_append [OF played_slides e] played_append [OF played_round1 e]
      played_append [OF played_round2 e] played_append [OF played_round3 e]
      played_append [OF played_round4 e] played_append [OF played_round5 e]
      played_append [OF played_round6 e]
    by (rule last)
qed

subsection \<open>The bricks\<close>

lemma distinct_count_list_1: "distinct xs \<Longrightarrow> x \<in> set xs \<Longrightarrow> count_list xs x = 1"
  by (induction xs) auto

lemma newBricksState_ids: "map brick_id (newBricksState m) = map brick_id (bricks m)"
  by (simp add: newBricksState_def setBrickOpacity_def o_def if_distrib cong: if_cong)

lemma newBricksState_no_hit:
  "\<not> anyBrickHit m \<Longrightarrow> newBricksState m = bricks m"
  by (simp add: anyBrickHit_def newBricksState_def map_idI)

lemma newBricksState_mem:
  "b' \<in> set (newBricksState m) \<Longrightarrow>
     \<exists>b \<in> set (bricks m). b' = (if isBallBounceOnBrick m b then setBrickOpacity b else b)"
  by (auto simp: newBricksState_def)

lemma bricksInv_hits:
  "bricksInv m \<Longrightarrow> b \<in> set (bricks m) \<Longrightarrow> numberOfHitsLeft b \<in> {1, 2, 3, 4}"
  by (simp add: bricksInv_def list_all_iff)

lemma stepState_bricksInv:
  assumes inv: "bricksInv m"
  shows "bricksInv (stepState rnd m v)"
proof (cases "isBreakout m \<and> anyBrickHit m")
  case False
  have "filter brickToRemove (bricks m) = []"
    using bricksInv_hits [OF inv] by (fastforce simp: filter_empty_conv brickToRemove_def)
  with False inv show ?thesis
    by (auto simp: stepState_def bricksInv_def mainState_sel newBricksState_no_hit)
next
  case True
  let ?nb = "newBricksState m"
  let ?bs' = "filter brickToKeep ?nb"
  let ?new = "map getBrickID (filter brickToRemove ?nb)"
  have ids: "map brick_id ?nb = map brick_id (bricks m)" by (rule newBricksState_ids)
  from inv have d: "distinct (map brick_id ?nb)" by (simp add: bricksInv_def ids)
  then have inj: "inj_on brick_id (set ?nb)" by (simp add: distinct_map)
  have sub: "set (map brick_id ?bs') \<subseteq> set (map brick_id (bricks m))"
    unfolding ids [symmetric] by auto
  have new_sub: "set ?new \<subseteq> set (map brick_id (bricks m))"
    unfolding ids [symmetric] by (auto simp: getBrickID_def)
  have 1: "list_all (\<lambda>b. numberOfHitsLeft b \<in> {1, 2, 3, 4}) ?bs'"
  proof -
    have "numberOfHitsLeft b' \<in> {1, 2, 3, 4}" if "b' \<in> set ?nb" "brickToKeep b'" for b'
    proof -
      from newBricksState_mem [OF that(1)] obtain b where b: "b \<in> set (bricks m)"
        "b' = (if isBallBounceOnBrick m b then setBrickOpacity b else b)" by blast
      from bricksInv_hits [OF inv b(1)] that(2) b(2) show ?thesis
        by (auto simp: setBrickOpacity_def brickToKeep_def split: if_splits)
    qed
    then show ?thesis by (auto simp: list_all_iff)
  qed
  have 2: "distinct (map brick_id ?bs')" using d by (rule distinct_map_filter)
  have 3: "distinct (bricksToRemove m @ ?new)"
  proof -
    have n: "distinct ?new" using d by (simp add: getBrickID_def [abs_def] distinct_map_filter)
    from inv have r: "distinct (bricksToRemove m)"
      and "set (bricksToRemove m) \<inter> set (map brick_id (bricks m)) = {}"
      by (auto simp: bricksInv_def list_all_iff)
    with new_sub have "set (bricksToRemove m) \<inter> set ?new = {}" by blast
    with n r show ?thesis by (simp only: distinct_append simp_thms)
  qed
  have 4: "list_all (\<lambda>i. i \<notin> set (map brick_id ?bs')) (bricksToRemove m @ ?new)"
  proof -
    have "i \<notin> set (map brick_id ?bs')" if "i \<in> set (bricksToRemove m)" for i
      using that inv sub by (auto simp: bricksInv_def list_all_iff)
    moreover have "i \<notin> set (map brick_id ?bs')" if "i \<in> set ?new" for i
    proof
      assume "i \<in> set (map brick_id ?bs')"
      then obtain k where k: "k \<in> set ?nb" "brickToKeep k" "brick_id k = i" by auto
      from that obtain r where r: "r \<in> set ?nb" "brickToRemove r" "brick_id r = i"
        by (auto simp: getBrickID_def)
      from inj k(1,3) r(1,3) have "k = r" by (auto dest: inj_onD)
      with k(2) r(2) show False by (simp add: brickToKeep_def brickToRemove_def)
    qed
    ultimately show ?thesis by (auto simp: list_all_iff)
  qed
  from True 1 2 3 4 show ?thesis
    by (simp add: stepState_def bricksInv_def)
qed

lemma advance_bricksInv: "bricksInv (advance s e v) = bricksInv s"
  by (simp add: bricksInv_def advance_sel)

lemma initialState_bricksInv: "bricksInv (initialState r0)"
proof -
  have "distinct (map brick_id initialiseBricks)"
    by (simp add: initialiseBricks_def createBrick_def Let_def o_def distinct_map inj_on_def)
  moreover have "list_all (\<lambda>b. numberOfHitsLeft b \<in> {1, 2, 3, 4}) initialiseBricks"
    by (simp add: initialiseBricks_def createBrick_def Let_def list_all_iff)
  ultimately show ?thesis by (simp add: bricksInv_def initialState_def)
qed

lemma reachable_bricksInv: "reachable r0 s \<Longrightarrow> bricksInv s"
proof (induction rule: reachable.induct)
  case init
  show ?case by (rule initialState_bricksInv)
next
  case (step s rnd eve s')
  show ?case
  proof (cases eve)
    case (Tick e)
    with step.hyps(2) have "tick rnd s e = Inr s'" by simp
    then show ?thesis using step.IH
      by (elim tick_Inr) (simp add: stepState_bricksInv advance_bricksInv)
  next
    case (Restart b)
    with step.hyps(2) show ?thesis by (auto simp: initialState_bricksInv)
  qed (use step.hyps(2) step.IH in \<open>auto simp: bricksInv_def\<close>)
qed

subsection \<open>Evaluating a game of breakout\<close>

lemma initialiseBricks_eq:
  "initialiseBricks =
    [ \<lparr> brick_id = 1, brick_position = Vector 320 0, width = 7, height = 38,
        opacity = 1, numberOfHitsLeft = 4 \<rparr>,
      \<lparr> brick_id = 2, brick_position = Vector 280 40, width = 7, height = 38,
        opacity = 1, numberOfHitsLeft = 4 \<rparr>,
      \<lparr> brick_id = 3, brick_position = Vector 320 80, width = 7, height = 38,
        opacity = 1, numberOfHitsLeft = 4 \<rparr>,
      \<lparr> brick_id = 4, brick_position = Vector 280 120, width = 7, height = 38,
        opacity = 1, numberOfHitsLeft = 4 \<rparr>,
      \<lparr> brick_id = 5, brick_position = Vector 320 160, width = 7, height = 38,
        opacity = 1, numberOfHitsLeft = 4 \<rparr>,
      \<lparr> brick_id = 6, brick_position = Vector 280 200, width = 7, height = 38,
        opacity = 1, numberOfHitsLeft = 4 \<rparr>,
      \<lparr> brick_id = 7, brick_position = Vector 320 240, width = 7, height = 38,
        opacity = 1, numberOfHitsLeft = 4 \<rparr>,
      \<lparr> brick_id = 8, brick_position = Vector 280 280, width = 7, height = 38,
        opacity = 1, numberOfHitsLeft = 4 \<rparr>,
      \<lparr> brick_id = 9, brick_position = Vector 320 320, width = 7, height = 38,
        opacity = 1, numberOfHitsLeft = 4 \<rparr>,
      \<lparr> brick_id = 10, brick_position = Vector 280 360, width = 7, height = 38,
        opacity = 1, numberOfHitsLeft = 4 \<rparr>,
      \<lparr> brick_id = 11, brick_position = Vector 320 400, width = 7, height = 38,
        opacity = 1, numberOfHitsLeft = 4 \<rparr>,
      \<lparr> brick_id = 12, brick_position = Vector 280 440, width = 7, height = 38,
        opacity = 1, numberOfHitsLeft = 4 \<rparr>,
      \<lparr> brick_id = 13, brick_position = Vector 320 480, width = 7, height = 38,
        opacity = 1, numberOfHitsLeft = 4 \<rparr>,
      \<lparr> brick_id = 14, brick_position = Vector 280 520, width = 7, height = 38,
        opacity = 1, numberOfHitsLeft = 4 \<rparr>,
      \<lparr> brick_id = 15, brick_position = Vector 320 560, width = 7, height = 38,
        opacity = 1, numberOfHitsLeft = 4 \<rparr> ]"
  proof -
  have "[0 ..< 15] = [0, 1, 2, 3, 4, 5, 6, 7, 8, 9, 10, 11, 12, 13, 14 :: nat]"
    by (simp add: upt_rec)
  then show ?thesis
    by (simp add: initialiseBricks_def createBrick_def CanvasSize_def Let_def)
qed



lemmas brick_defs = anyBrickHit_def newBricksState_def isBallBounceOnBrick_def setBrickOpacity_def
  brickToKeep_def brickToRemove_def getBrickID_def

lemmas eval_defs = step_defs brick_defs initialState_def initialiseBricks_eq Let_def

lemma bconfig_sel:
  "isBreakout (bconfig r0 t x y u v pY cY p1 p2 eog brk bs rs) = brk"
  "bricks (bconfig r0 t x y u v pY cY p1 p2 eog brk bs rs) = bs"
  "bricksToRemove (bconfig r0 t x y u v pY cY p1 p2 eog brk bs rs) = rs"
  "ball (bconfig r0 t x y u v pY cY p1 p2 eog brk bs rs) = ball (config r0 t x y u v pY cY p1 p2 eog)"
  by (simp_all add: bconfig_def)

lemma borderBrickTrace_run:
  "reduceAll False (initialState False) borderBrickTrace = Inr borderBrickState"
proof -
  have toggle:
    "reduceAll False (config False 434 315 (68 / 375) 3 (- (592 / 375)) (189 / 2) (575 / 4) 0 0 0)
       [(False, ToggleBreakout True)] = Inr borderBrickState"
    by (simp add: borderBrickState_def bconfig_def config_def initialState_def)
  show ?thesis
    unfolding borderBrickTrace_def reduceAll_append escape_seg1 border_seg2 border_seg3
      border_seg4 border_seg5 border_seg6 border_seg7 toggle sum.case ..
qed

text \<open>A breakout tick in a reachable state: what it leaves of the bricks.\<close>

lemma breakout_tick_zeroed:
  assumes "reachable r0 s" and "isBreakout s" and "reduceState r0 rnd s (Tick e) = Inr s'"
  shows "list_all (\<lambda>b. numberOfHitsLeft b > 0) (bricks s')
     \<and> distinct (bricksToRemove s')
     \<and> (\<exists>v. velocity (ball s) = Some v
          \<and> list_all
               (\<lambda>b. isBallBounceOnBrick (advance s e v) b \<and> numberOfHitsLeft (setBrickOpacity b) \<le> 0
                    \<longrightarrow> brick_id b \<notin> set (map brick_id (bricks s'))
                        \<and> count_list (bricksToRemove s') (brick_id b) = 1)
               (bricks s))"
proof -
  from assms(3) have t: "tick rnd s e = Inr s'" by simp
  from assms(1,3) have "reachable r0 s'" by (rule reachable.step)
  then have inv': "bricksInv s'" by (rule reachable_bricksInv)
  from reachable_bricksInv [OF assms(1)] have inv: "bricksInv s" .
  from t obtain v where v: "velocity (ball s) = Some v" and s': "s' = stepState rnd (advance s e v) v"
    by (rule tick_Inr)
  let ?m = "advance s e v"
  have brk: "isBreakout ?m" using assms(2) by (simp add: advance_sel)
  have a: "list_all (\<lambda>b. numberOfHitsLeft b > 0) (bricks s')"
    using inv' by (auto simp: bricksInv_def list_all_iff)
  have b: "distinct (bricksToRemove s')" using inv' by (simp add: bricksInv_def)
  have c: "brick_id b \<notin> set (map brick_id (bricks s'))
      \<and> count_list (bricksToRemove s') (brick_id b) = 1"
    if mem: "b \<in> set (bricks s)" and hit: "isBallBounceOnBrick ?m b"
      and zero: "numberOfHitsLeft (setBrickOpacity b) \<le> 0" for b
  proof -
    from mem have mem': "b \<in> set (bricks ?m)" by (simp add: advance_sel)
    from bricksInv_hits [OF inv mem] zero have one: "numberOfHitsLeft b = 1"
      by (auto simp: setBrickOpacity_def)
    from mem' hit have "setBrickOpacity b \<in> set (newBricksState ?m)"
      by (force simp: newBricksState_def)
    moreover from one have "brickToRemove (setBrickOpacity b)"
      by (simp add: brickToRemove_def setBrickOpacity_def)
    ultimately have "setBrickOpacity b \<in> set (filter brickToRemove (newBricksState ?m))"
      by simp
    then have "getBrickID (setBrickOpacity b)
        \<in> set (map getBrickID (filter brickToRemove (newBricksState ?m)))"
      unfolding set_map by (rule imageI)
    then have "brick_id b \<in> set (map getBrickID (filter brickToRemove (newBricksState ?m)))"
      by (simp add: getBrickID_def setBrickOpacity_def)
    with brk have "brick_id b \<in> set (bricksToRemove s')"
      by (simp add: s' stepState_def)
    with inv' show ?thesis
      by (auto simp: bricksInv_def list_all_iff distinct_count_list_1)
  qed
  from a b c v show ?thesis by (auto simp: list_all_iff)
qed


lemma reduceState_appends:
  assumes "reduceState r0 rnd s eve = Inr s'" and "\<not> isRestart eve"
  shows "\<exists>ids. bricksToRemove s' = bricksToRemove s @ ids"
proof (cases eve)
  case (Tick e)
  with assms(1) have "tick rnd s e = Inr s'" by simp
  then show ?thesis
    by (elim tick_Inr) (simp add: stepState_def mainState_sel advance_sel)
qed (use assms in auto)

lemma scan_keeps_ids:
  "scan r0 s evs = Inr ss \<Longrightarrow> list_all (\<lambda>(rnd, eve). \<not> isRestart eve) evs \<Longrightarrow>
     x \<in> set (bricksToRemove s) \<Longrightarrow> t \<in> set ss \<Longrightarrow> x \<in> set (bricksToRemove t)"
proof (induction evs arbitrary: s ss)
  case Nil
  then show ?case by simp
next
  case (Cons a evs)
  obtain rnd eve where a: "a = (rnd, eve)" by (cases a)
  from Cons.prems(1) obtain s1 ss1 where s1: "reduceState r0 rnd s eve = Inr s1"
    and ss1: "scan r0 s1 evs = Inr ss1" and ss: "ss = s1 # ss1"
    by (auto simp: a split: sum.splits)
  from Cons.prems(2) have nr: "\<not> isRestart eve" and rest: "list_all (\<lambda>(rnd, eve). \<not> isRestart eve) evs"
    by (simp_all add: a)
  from reduceState_appends [OF s1 nr] Cons.prems(3) have x1: "x \<in> set (bricksToRemove s1)"
    by auto
  show ?case
  proof (cases "t = s1")
    case True
    with x1 show ?thesis by simp
  next
    case False
    with Cons.prems(4) ss have "t \<in> set ss1" by simp
    with Cons.IH [OF ss1 rest x1] show ?thesis .
  qed
qed

lemma reachable_count_1:
  "reachable r0 t \<Longrightarrow> x \<in> set (bricksToRemove t) \<Longrightarrow> count_list (bricksToRemove t) x = 1"
  using reachable_bricksInv [of r0 t] by (simp add: bricksInv_def distinct_count_list_1)

section \<open>The claims\<close>

text \<open>
  Claim C1: in every reachable state of the fold both paddles stay inside the canvas,
  \<open>0 \<le> y \<le> CanvasSize - BarHeight\<close>. The player's paddle does (\<open>reachable_playerBar_y\<close>:
  the \<^verbatim>\<open>Slide\<close> branch rejects a move that would leave the canvas). The computer's paddle
  does not: a \<^verbatim>\<open>Tick\<close> moves it by \<^verbatim>\<open>computerDifficulty\<close> towards the ball with no bound
  check. In the game \<open>escapeTrace\<close> the player sends the ball to the top of the canvas, the
  computer's paddle follows it, and after the last tick its \<open>y\<close> is \<open>-5/4\<close>.
\<close>

theorem computerBar_leaves_canvas:
  "reduceAll False (initialState False) escapeTrace =
     Inr (config False 456 381 (4684 / 125) 3 (- (112 / 125)) (189 / 2) (- (5 / 4)) 0 0 0)
   \<and> vec_y (position (computerBar
         (config False 456 381 (4684 / 125) 3 (- (112 / 125)) (189 / 2) (- (5 / 4)) 0 0 0)))
       = - (5 / 4)
   \<and> - (5 / 4) < (0 :: real)"
  by (simp add: escapeTrace_run config_sel)

text \<open>
  Claim C2: in every sequence of states the fold produces from the initial state, \<^verbatim>\<open>endOfGame\<close>
  is 0 until a score first reaches \<open>maxScore\<close>; once a score reaches \<open>maxScore\<close>, \<^verbatim>\<open>endOfGame\<close>
  is the number of the winning side (1 for the player, 2 for the computer) in that state and
  in every later state of the sequence; it becomes non-zero once. The sequence is the one the
  subscriber is given (\<open>subscription\<close>): it ends with the first state whose \<^verbatim>\<open>endOfGame\<close> is
  not 0, so that state, if there is one, is the last, and a score is \<open>maxScore\<close> in it. For
  every list of events the sequence exists (no event fails).
\<close>

theorem endOfGame_terminal:
  "\<exists>ss. subscription r0 (initialState r0) evs = Inr ss
     \<and> (\<forall>i<length ss.
          ((\<forall>k\<le>i. p1Score (ss ! k) \<noteq> maxScore \<and> p2Score (ss ! k) \<noteq> maxScore)
             \<longrightarrow> endOfGame (ss ! i) = 0)
          \<and> (p1Score (ss ! i) = maxScore
             \<longrightarrow> (\<forall>j. i \<le> j \<and> j < length ss \<longrightarrow> endOfGame (ss ! j) = playerBarNum))
          \<and> (p2Score (ss ! i) = maxScore
             \<longrightarrow> (\<forall>j. i \<le> j \<and> j < length ss \<longrightarrow> endOfGame (ss ! j) = computerBarNum))
          \<and> (endOfGame (ss ! i) \<noteq> 0
             \<longrightarrow> Suc i = length ss \<and> (p1Score (ss ! i) = maxScore \<or> p2Score (ss ! i) = maxScore)))"
proof -
  have "p1Score (initialState r0) \<noteq> maxScore" "p2Score (initialState r0) \<noteq> maxScore"
    by (simp_all add: initialState_def maxScore_def)
  from subscription_props [OF reachable.init this, of evs] obtain ss
    where ss: "subscription r0 (initialState r0) evs = Inr ss"
      and p: "\<And>i. i < length ss \<Longrightarrow> endOfGame (ss ! i) = winner (ss ! i)
          \<and> \<not> (p1Score (ss ! i) = maxScore \<and> p2Score (ss ! i) = maxScore)
          \<and> (Suc i < length ss \<longrightarrow> endOfGame (ss ! i) = 0)"
    by blast
  have last: "Suc i = length ss" if "i < length ss" "endOfGame (ss ! i) \<noteq> 0" for i
    using p [OF that(1)] that by (cases "Suc i < length ss") auto
  have q: "((\<forall>k\<le>i. p1Score (ss ! k) \<noteq> maxScore \<and> p2Score (ss ! k) \<noteq> maxScore)
             \<longrightarrow> endOfGame (ss ! i) = 0)
          \<and> (p1Score (ss ! i) = maxScore
             \<longrightarrow> (\<forall>j. i \<le> j \<and> j < length ss \<longrightarrow> endOfGame (ss ! j) = playerBarNum))
          \<and> (p2Score (ss ! i) = maxScore
             \<longrightarrow> (\<forall>j. i \<le> j \<and> j < length ss \<longrightarrow> endOfGame (ss ! j) = computerBarNum))
          \<and> (endOfGame (ss ! i) \<noteq> 0
             \<longrightarrow> Suc i = length ss \<and> (p1Score (ss ! i) = maxScore \<or> p2Score (ss ! i) = maxScore))"
    if i: "i < length ss" for i
  proof -
    note pi = p [OF i]
    have a: "endOfGame (ss ! i) = 0"
      if "\<forall>k\<le>i. p1Score (ss ! k) \<noteq> maxScore \<and> p2Score (ss ! k) \<noteq> maxScore"
      using that pi by (simp add: winner_def)
    have nz: "endOfGame (ss ! i) \<noteq> 0" if "p1Score (ss ! i) = maxScore \<or> p2Score (ss ! i) = maxScore"
      using that pi by (auto simp: winner_def Constants_defs)
    have only: "j = i" if "i \<le> j" "j < length ss"
      and "p1Score (ss ! i) = maxScore \<or> p2Score (ss ! i) = maxScore" for j
      using last [OF i nz [OF that(3)]] that(1,2) by simp
    have b: "endOfGame (ss ! j) = playerBarNum"
      if "p1Score (ss ! i) = maxScore" "i \<le> j" "j < length ss" for j
      using only [of j] that pi by (simp add: winner_def)
    have c: "endOfGame (ss ! j) = computerBarNum"
      if "p2Score (ss ! i) = maxScore" "i \<le> j" "j < length ss" for j
      using only [of j] that pi by (auto simp: winner_def)
    have d: "Suc i = length ss \<and> (p1Score (ss ! i) = maxScore \<or> p2Score (ss ! i) = maxScore)"
      if "endOfGame (ss ! i) \<noteq> 0"
      using last [OF i that] that pi by (auto simp: winner_def split: if_splits)
    from a b c d show ?thesis by blast
  qed
  with ss show ?thesis by blast
qed

theorem endOfGame_terminal_witness:
  "\<exists>ss. subscription False (initialState False) (missTrace 800) = Inr ss
     \<and> length ss = 705 \<and> p2Score (last ss) = 7 \<and> endOfGame (last ss) = 2
     \<and> list_all (\<lambda>t. endOfGame t = 0) (butlast ss)"
proof -
  from endOfGame_terminal [of False "missTrace 800"] obtain ss
    where ss: "subscription False (initialState False) (missTrace 800) = Inr ss"
      and p: "\<And>i. i < length ss \<Longrightarrow> endOfGame (ss ! i) \<noteq> 0 \<Longrightarrow> Suc i = length ss"
    by blast
  from subscription_played [OF ss, of 0] missTrace_played
  have len: "length ss = 705"
    and l: "last (initialState False # ss) = config False 699 300 300 (- 3) 0 (445 / 2) (525 / 2) 0 7 2"
    by simp_all
  from len have ne: "ss \<noteq> []" by auto
  with l have l': "last ss = config False 699 300 300 (- 3) 0 (445 / 2) (525 / 2) 0 7 2" by simp
  have "endOfGame t = 0" if "t \<in> set (butlast ss)" for t
  proof -
    from that obtain i where i: "i < length (butlast ss)" "t = butlast ss ! i"
      by (auto simp: in_set_conv_nth)
    then have "i < length ss" "Suc i \<noteq> length ss" "t = ss ! i"
      by (simp_all add: nth_butlast)
    with p [of i] show ?thesis by auto
  qed
  with ss len l' show ?thesis by (auto simp: list_all_iff config_sel)
qed

text \<open>
  Claim C3 says that the scores never decrease across any sequence of events. A \<^verbatim>\<open>Restart\<close>
  decreases them: after the 105 events of \<open>missTrace 100\<close> the computer has one point, and a
  \<^verbatim>\<open>Restart\<close> then sets its score to 0.
\<close>

theorem scores_decrease_on_restart:
  "reduceAll False (initialState False) (missTrace 100) =
     Inr (config False 99 300 300 (- 3) 0 (445 / 2) (525 / 2) 0 1 0)
   \<and> p2Score (config False 99 300 300 (- 3) 0 (445 / 2) (525 / 2) 0 1 0) = 1
   \<and> reduceAll False (initialState False) (missTrace 100 @ [(False, Restart True)]) =
     Inr (initialState False)
   \<and> p2Score (initialState False) = 0"
  by (simp add: reduceAll_append missTrace_100 config_sel)
     (simp add: initialState_def)

text \<open>
  Claim C3, amended: across any sequence of events without a \<^verbatim>\<open>Restart\<close>, folded from any state,
  \<^verbatim>\<open>p1Score\<close> and \<^verbatim>\<open>p2Score\<close> never decrease; from each state to the next, a \<^verbatim>\<open>Tick\<close> adds
  exactly 1 to \<^verbatim>\<open>p1Score\<close> when the advanced ball has \<open>x \<ge> CanvasSize\<close> and to \<^verbatim>\<open>p2Score\<close> when
  it has \<open>x \<le> 0\<close>, and 0 otherwise, and every other event adds 0 (\<open>scoreStep\<close>).
\<close>

theorem scores_without_restart:
  assumes "scan r0 s evs = Inr ss" and "list_all (\<lambda>(rnd, eve). \<not> isRestart eve) evs"
  shows "sorted (map p1Score (s # ss)) \<and> sorted (map p2Score (s # ss))
     \<and> length ss = length evs
     \<and> (\<forall>i<length evs. scoreStep (snd (evs ! i)) ((s # ss) ! i) (ss ! i))"
  using assms
proof (induction evs arbitrary: s ss)
  case Nil
  then show ?case by simp
next
  case (Cons a evs)
  obtain rnd eve where a: "a = (rnd, eve)" by (cases a)
  from Cons.prems(1) obtain s1 ss1 where s1: "reduceState r0 rnd s eve = Inr s1"
    and ss1: "scan r0 s1 evs = Inr ss1" and ss: "ss = s1 # ss1"
    by (auto simp: a split: sum.splits)
  from Cons.prems(2) have nr: "\<not> isRestart eve" and rest: "list_all (\<lambda>(rnd, eve). \<not> isRestart eve) evs"
    by (simp_all add: a)
  from reduceState_scoreStep [OF nr s1] have st: "scoreStep eve s s1" .
  note mono = scoreStep_mono [OF st]
  note IH = Cons.IH [OF ss1 rest]
  have idx: "scoreStep (snd ((a # evs) ! i)) ((s # ss) ! i) (ss ! i)" if "i < length (a # evs)" for i
  proof (cases i)
    case 0
    with st show ?thesis by (simp add: a ss)
  next
    case (Suc j)
    with that have "j < length evs" by simp
    with IH have "scoreStep (snd (evs ! j)) ((s1 # ss1) ! j) (ss1 ! j)" by blast
    then show ?thesis by (simp add: Suc ss)
  qed
  from IH mono have "sorted (map p1Score (s # ss))" "sorted (map p2Score (s # ss))"
    "length ss = length (a # evs)"
    by (force simp: ss)+
  with idx show ?case by blast
qed

theorem scores_without_restart_witness:
  "scan False (config False 98 3 300 (- 3) 0 (445 / 2) (1045 / 4) 0 0 0)
       [(False, Tick 99), (False, Slide 8)] =
     Inr [config False 99 300 300 (- 3) 0 (445 / 2) (525 / 2) 0 1 0,
          config False 99 300 300 (- 3) 0 (461 / 2) (525 / 2) 0 1 0]
   \<and> list_all (\<lambda>(rnd, eve). \<not> isRestart eve) [(False, Tick 99), (False, Slide 8)]
   \<and> sorted (map p2Score
        [config False 98 3 300 (- 3) 0 (445 / 2) (1045 / 4) 0 0 0,
         config False 99 300 300 (- 3) 0 (445 / 2) (525 / 2) 0 1 0,
         config False 99 300 300 (- 3) 0 (461 / 2) (525 / 2) 0 1 0])
   \<and> scoreStep (Tick 99) (config False 98 3 300 (- 3) 0 (445 / 2) (1045 / 4) 0 0 0)
        (config False 99 300 300 (- 3) 0 (445 / 2) (525 / 2) 0 1 0)"
  using scores_without_restart [OF scan_config_witness] scan_config_witness
  by (auto simp: config_sel)

text \<open>
  Claim C4 says that on a \<^verbatim>\<open>Tick\<close> in breakout mode with a brick hit and a border contact, no
  paddle bounce and no endzone, the velocity of the ball is the brick-bounce result (both
  components flipped). The game \<open>borderBrickTrace\<close> ends in \<open>borderBrickState\<close>, where all of
  that is the case for the ball at \<open>(315, 68/375)\<close> with velocity \<open>(3, -592/375)\<close>; the next
  tick gives it the velocity \<open>(3, 592/375)\<close>, the border-bounce result; the brick-bounce
  result would be \<open>(-3, 592/375)\<close>. The brick loses a hit all the same.
\<close>

theorem border_rule_before_brick_rule:
  "reduceAll False (initialState False) borderBrickTrace = Inr borderBrickState
   \<and> isBreakout borderBrickState
   \<and> velocity (ball borderBrickState) = Some (Vector 3 (- (592 / 375)))
   \<and> anyBrickHit (advance borderBrickState 435 (Vector 3 (- (592 / 375))))
   \<and> isballBounceOnBorder (advance borderBrickState 435 (Vector 3 (- (592 / 375))))
   \<and> \<not> isballBounceOnLeftBar (advance borderBrickState 435 (Vector 3 (- (592 / 375))))
   \<and> \<not> isballBounceOnRightBar (advance borderBrickState 435 (Vector 3 (- (592 / 375))))
   \<and> \<not> isballp1Endzone (advance borderBrickState 435 (Vector 3 (- (592 / 375))))
   \<and> \<not> isballp2Endzone (advance borderBrickState 435 (Vector 3 (- (592 / 375))))
   \<and> map_sum id (velocity \<circ> ball) (reduceState False False borderBrickState (Tick 435))
       = Inr (Some (Vector 3 (592 / 375)))
   \<and> flipY (flipX (Vector 3 (- (592 / 375)))) = Vector (- 3) (592 / 375)
   \<and> map_sum id (map numberOfHitsLeft \<circ> bricks)
         (reduceState False False borderBrickState (Tick 435))
       = Inr [3, 4, 4, 4, 4, 4, 4, 4, 4, 4, 4, 4, 4, 4, 4]"
  by (simp add: borderBrickTrace_run)
     (simp add: borderBrickState_def bconfig_def config_def advance_def eval_defs)

text \<open>
  Claim C4, amended: on a \<^verbatim>\<open>Tick\<close> in breakout mode with no endzone condition, the velocity
  of the ball is chosen in the order paddle, border, brick: the paddle-bounce result if the
  advanced ball bounces on a paddle; otherwise the border-bounce result (only \<open>y\<close> flipped) if
  it touches the top or bottom border, whether or not a brick is hit; otherwise the
  brick-bounce result (both components flipped) if a brick overlaps it; otherwise the
  velocity it had. Whichever rule applies, every brick the advanced ball overlaps loses one
  hit and 0.25 of its opacity on that tick, and the bricks left without a hit are dropped
  from \<^verbatim>\<open>bricks\<close>.
\<close>

theorem bounce_priority_in_breakout:
  assumes "isBreakout s" and "velocity (ball s) = Some v"
    and "\<not> isballp1Endzone (advance s e v)" and "\<not> isballp2Endzone (advance s e v)"
  shows "\<exists>s'. reduceState r0 rnd s (Tick e) = Inr s'
     \<and> velocity (ball s') =
         Some (if isballBounceOnLeftBar (advance s e v) \<or> isballBounceOnRightBar (advance s e v)
               then calcBouncedVelocity v (paddleAimVerticalError (advance s e v))
               else if isballBounceOnBorder (advance s e v) then flipY v
               else if anyBrickHit (advance s e v) then flipY (flipX v)
               else v)
     \<and> bricks s' =
         (if anyBrickHit (advance s e v)
          then filter (\<lambda>b. numberOfHitsLeft b > 0)
                 (map (\<lambda>b. if isBallBounceOnBrick (advance s e v) b
                           then b\<lparr> opacity := opacity b - 1 / 4,
                                  numberOfHitsLeft := numberOfHitsLeft b - 1 \<rparr>
                           else b)
                    (bricks s))
          else bricks s)"
proof -
  have "bricks (stepState rnd (advance s e v) v) =
         (if anyBrickHit (advance s e v)
          then filter (\<lambda>b. numberOfHitsLeft b > 0)
                 (map (\<lambda>b. if isBallBounceOnBrick (advance s e v) b
                           then b\<lparr> opacity := opacity b - 1 / 4,
                                  numberOfHitsLeft := numberOfHitsLeft b - 1 \<rparr>
                           else b)
                    (bricks s))
          else bricks s)"
    using assms(1)
    by (simp add: stepState_def mainState_sel advance_sel newBricksState_def
          setBrickOpacity_def brickToKeep_def [abs_def] opacityReduction_def cong: if_cong)
  with assms show ?thesis
    by (simp add: tick_Some stepState_sel nextBall_def calculateBallBounce_def advance_sel)
qed

theorem bounce_priority_in_breakout_witness:
  "isBreakout borderBrickState
   \<and> velocity (ball borderBrickState) = Some (Vector 3 (- (592 / 375)))
   \<and> anyBrickHit (advance borderBrickState 435 (Vector 3 (- (592 / 375))))
   \<and> isballBounceOnBorder (advance borderBrickState 435 (Vector 3 (- (592 / 375))))
   \<and> \<not> isballp1Endzone (advance borderBrickState 435 (Vector 3 (- (592 / 375))))
   \<and> \<not> isballp2Endzone (advance borderBrickState 435 (Vector 3 (- (592 / 375))))
   \<and> map_sum id (velocity \<circ> ball) (reduceState False False borderBrickState (Tick 435))
       = Inr (Some (flipY (Vector 3 (- (592 / 375)))))
   \<and> map_sum id (map numberOfHitsLeft \<circ> bricks)
         (reduceState False False borderBrickState (Tick 435))
       = Inr [3, 4, 4, 4, 4, 4, 4, 4, 4, 4, 4, 4, 4, 4, 4]
   \<and> map_sum id (map opacity \<circ> bricks)
         (reduceState False False borderBrickState (Tick 435))
       = Inr [3 / 4, 1, 1, 1, 1, 1, 1, 1, 1, 1, 1, 1, 1, 1, 1]"
  using bounce_priority_in_breakout [of borderBrickState "Vector 3 (- (592 / 375))" 435 False False]
  by (simp add: borderBrickState_def bconfig_def config_def advance_def eval_defs)

text \<open>
  Claim C5 says that the id of a brick destroyed on a breakout \<^verbatim>\<open>Tick\<close> is appended to
  \<^verbatim>\<open>bricksToRemove\<close> exactly once across the whole event sequence. In \<open>replayTrace\<close> the brick
  with id 8 is destroyed on the seventh event and its id appended; the eighth event is a
  \<^verbatim>\<open>Restart\<close>, which empties \<^verbatim>\<open>bricksToRemove\<close> and brings the brick back; it is destroyed
  again on the fifteenth event, and its id appended a second time.
\<close>

theorem brick_id_appended_again_after_restart:
  "map_sum id (map bricksToRemove) (scan False (initialState False) replayTrace) =
     Inr [[], [], [], [], [], [], [8], [], [], [], [], [], [], [], [8]]"
  by (simp add: replayTrace_def destroyGame_def ticks_numeral ticks_1 eval_defs)

text \<open>
  Claim C5, amended: across any sequence of events without a \<^verbatim>\<open>Restart\<close>, folded from a
  reachable state, every event only appends to \<^verbatim>\<open>bricksToRemove\<close>; after a \<^verbatim>\<open>Tick\<close> processed
  in breakout mode no brick in \<^verbatim>\<open>bricks\<close> has \<^verbatim>\<open>numberOfHitsLeft\<close> \<open>\<le> 0\<close>; and every brick
  that the advanced ball overlaps and whose \<^verbatim>\<open>numberOfHitsLeft\<close> drops to zero on that tick is
  absent from \<^verbatim>\<open>bricks\<close> in the resulting state, and its id is appended to \<^verbatim>\<open>bricksToRemove\<close>
  exactly once across the sequence: it is not in \<^verbatim>\<open>bricksToRemove\<close> before the tick, and it
  occurs exactly once in \<^verbatim>\<open>bricksToRemove\<close> of the resulting state and of every later state.
\<close>

theorem brick_id_appended_once_without_restart:
  assumes "reachable r0 s" and "list_all (\<lambda>(rnd, eve). \<not> isRestart eve) evs"
  shows "\<exists>ss. scan r0 s evs = Inr ss \<and> length ss = length evs
     \<and> (\<forall>i<length evs.
          (\<exists>ids. bricksToRemove (ss ! i) = bricksToRemove ((s # ss) ! i) @ ids)
          \<and> (\<forall>e. snd (evs ! i) = Tick e \<and> isBreakout ((s # ss) ! i) \<longrightarrow>
                list_all (\<lambda>b. numberOfHitsLeft b > 0) (bricks (ss ! i))
                \<and> (\<exists>v. velocity (ball ((s # ss) ! i)) = Some v
                     \<and> (\<forall>b\<in>set (bricks ((s # ss) ! i)).
                          isBallBounceOnBrick (advance ((s # ss) ! i) e v) b
                            \<and> numberOfHitsLeft (setBrickOpacity b) \<le> 0 \<longrightarrow>
                          brick_id b \<notin> set (bricksToRemove ((s # ss) ! i))
                          \<and> brick_id b \<notin> set (map brick_id (bricks (ss ! i)))
                          \<and> list_all (\<lambda>t. count_list (bricksToRemove t) (brick_id b) = 1)
                               (drop i ss)))))"
  using assms
proof (induction evs arbitrary: s)
  case Nil
  show ?case by simp
next
  case (Cons a evs)
  obtain rnd eve where a: "a = (rnd, eve)" by (cases a)
  from Cons.prems(2) have nr: "\<not> isRestart eve" and rest: "list_all (\<lambda>(rnd, eve). \<not> isRestart eve) evs"
    by (simp_all add: a)
  from reduceState_total [OF Cons.prems(1)] obtain s1 where s1: "reduceState r0 rnd s eve = Inr s1"
    by blast
  with Cons.prems(1) have r1: "reachable r0 s1" by (rule reachable.step)
  from Cons.IH [OF r1 rest] obtain ss1 where ss1: "scan r0 s1 evs = Inr ss1"
    and len1: "length ss1 = length evs"
    and IH: "\<And>i. i < length evs \<Longrightarrow>
          (\<exists>ids. bricksToRemove (ss1 ! i) = bricksToRemove ((s1 # ss1) ! i) @ ids)
          \<and> (\<forall>e. snd (evs ! i) = Tick e \<and> isBreakout ((s1 # ss1) ! i) \<longrightarrow>
                list_all (\<lambda>b. numberOfHitsLeft b > 0) (bricks (ss1 ! i))
                \<and> (\<exists>v. velocity (ball ((s1 # ss1) ! i)) = Some v
                     \<and> (\<forall>b\<in>set (bricks ((s1 # ss1) ! i)).
                          isBallBounceOnBrick (advance ((s1 # ss1) ! i) e v) b
                            \<and> numberOfHitsLeft (setBrickOpacity b) \<le> 0 \<longrightarrow>
                          brick_id b \<notin> set (bricksToRemove ((s1 # ss1) ! i))
                          \<and> brick_id b \<notin> set (map brick_id (bricks (ss1 ! i)))
                          \<and> list_all (\<lambda>t. count_list (bricksToRemove t) (brick_id b) = 1)
                               (drop i ss1))))"
    by blast
  let ?ss = "s1 # ss1"
  from s1 ss1 have eq: "scan r0 s (a # evs) = Inr ?ss" by (simp add: a)
  have first:
    "list_all (\<lambda>b. numberOfHitsLeft b > 0) (bricks s1)
     \<and> (\<exists>v. velocity (ball s) = Some v
          \<and> (\<forall>b\<in>set (bricks s).
               isBallBounceOnBrick (advance s e v) b \<and> numberOfHitsLeft (setBrickOpacity b) \<le> 0 \<longrightarrow>
               brick_id b \<notin> set (bricksToRemove s)
               \<and> brick_id b \<notin> set (map brick_id (bricks s1))
               \<and> list_all (\<lambda>t. count_list (bricksToRemove t) (brick_id b) = 1) ?ss))"
    if tick: "eve = Tick e" and brk: "isBreakout s" for e
  proof -
    from s1 tick have st: "reduceState r0 rnd s (Tick e) = Inr s1" by simp
    from breakout_tick_zeroed [OF Cons.prems(1) brk st] obtain v
      where hits: "list_all (\<lambda>b. numberOfHitsLeft b > 0) (bricks s1)"
        and v: "velocity (ball s) = Some v"
        and z: "\<And>b. b \<in> set (bricks s) \<Longrightarrow> isBallBounceOnBrick (advance s e v) b \<Longrightarrow>
                numberOfHitsLeft (setBrickOpacity b) \<le> 0 \<Longrightarrow>
                brick_id b \<notin> set (map brick_id (bricks s1))
                \<and> count_list (bricksToRemove s1) (brick_id b) = 1"
      by (auto simp: list_all_iff)
    have "brick_id b \<notin> set (bricksToRemove s)
               \<and> brick_id b \<notin> set (map brick_id (bricks s1))
               \<and> list_all (\<lambda>t. count_list (bricksToRemove t) (brick_id b) = 1) ?ss"
      if b: "b \<in> set (bricks s)" "isBallBounceOnBrick (advance s e v) b"
        "numberOfHitsLeft (setBrickOpacity b) \<le> 0" for b
    proof -
      from reachable_bricksInv [OF Cons.prems(1)] b(1)
      have before: "brick_id b \<notin> set (bricksToRemove s)"
        by (auto simp: bricksInv_def list_all_iff)
      note zb = z [OF b]
      then have mem: "brick_id b \<in> set (bricksToRemove s1)"
        using count_list_0_iff [of "bricksToRemove s1" "brick_id b"] by auto
      have "count_list (bricksToRemove t) (brick_id b) = 1" if "t \<in> set ss1" for t
        using reachable_count_1 [OF scan_reachable [OF r1 ss1 that]
                scan_keeps_ids [OF ss1 rest mem that]] .
      with zb before show ?thesis by (simp add: list_all_iff)
    qed
    with hits v show ?thesis by blast
  qed
  have "(\<exists>ids. bricksToRemove (?ss ! i) = bricksToRemove ((s # ?ss) ! i) @ ids)
          \<and> (\<forall>e. snd ((a # evs) ! i) = Tick e \<and> isBreakout ((s # ?ss) ! i) \<longrightarrow>
                list_all (\<lambda>b. numberOfHitsLeft b > 0) (bricks (?ss ! i))
                \<and> (\<exists>v. velocity (ball ((s # ?ss) ! i)) = Some v
                     \<and> (\<forall>b\<in>set (bricks ((s # ?ss) ! i)).
                          isBallBounceOnBrick (advance ((s # ?ss) ! i) e v) b
                            \<and> numberOfHitsLeft (setBrickOpacity b) \<le> 0 \<longrightarrow>
                          brick_id b \<notin> set (bricksToRemove ((s # ?ss) ! i))
                          \<and> brick_id b \<notin> set (map brick_id (bricks (?ss ! i)))
                          \<and> list_all (\<lambda>t. count_list (bricksToRemove t) (brick_id b) = 1)
                               (drop i ?ss))))"
    if "i < length (a # evs)" for i
  proof (cases i)
    case 0
    from reduceState_appends [OF s1 nr] first show ?thesis
      by (simp add: 0 a)
  next
    case (Suc k)
    with that have "k < length evs" by simp
    from IH [OF this] show ?thesis by (simp add: Suc)
  qed
  with eq len1 show ?case by (intro exI [of _ ?ss]) simp
qed


theorem brick_id_appended_once_without_restart_witness:
  "list_all (\<lambda>(rnd, eve). \<not> isRestart eve) (destroyGame 0 @ ticks 6 2)
   \<and> map_sum id (map bricksToRemove)
        (scan False (initialState False) (destroyGame 0 @ ticks 6 2)) =
       Inr [[], [], [], [], [], [], [8], [8], [8]]
   \<and> map_sum id (map (length \<circ> bricks))
        (scan False (initialState False) (destroyGame 0 @ ticks 6 2)) =
       Inr [15, 15, 15, 15, 15, 15, 14, 14, 14]"
  using brick_id_appended_once_without_restart
          [OF reachable.init, of "destroyGame 0 @ ticks 6 2" False]
  by (simp add: destroyGame_def ticks_numeral ticks_1 eval_defs)

text \<open>
  Claim C6: for every state, reducing a \<^verbatim>\<open>Restart\<close> event yields the original initial state:
  scores 0 and 0, \<^verbatim>\<open>endOfGame\<close> 0, the default \<^verbatim>\<open>computerDifficulty\<close> 25/20, \<^verbatim>\<open>isBreakout\<close>
  false, the grid of fifteen bricks with four hits each, no brick to remove, and the paddles
  and the ball as they were created (the ball with the direction drawn when the initial
  state was built).
\<close>

theorem restart_yields_initialState:
  "reduceState r0 rnd s (Restart b) = Inr (initialState r0)
   \<and> p1Score (initialState r0) = 0 \<and> p2Score (initialState r0) = 0
   \<and> endOfGame (initialState r0) = 0
   \<and> computerDifficulty (initialState r0) = 25 / 20
   \<and> isBreakout (initialState r0) = False
   \<and> bricks (initialState r0) =
        map (\<lambda>i. \<lparr> brick_id = real i + 1,
                    brick_position = Vector (if even i then 320 else 280) (40 * real i),
                    width = 7, height = 38, opacity = 1, numberOfHitsLeft = 4 \<rparr>) [0 ..< 15]
   \<and> bricksToRemove (initialState r0) = []
   \<and> playerBar (initialState r0) =
        \<lparr> position = Vector 75 (525 / 2), acceleration = Some (Vector 0 0), velocity = None,
          body_size = 75 \<rparr>
   \<and> computerBar (initialState r0) =
        \<lparr> position = Vector 525 (525 / 2), acceleration = Some (Vector 0 0), velocity = None,
          body_size = 75 \<rparr>
   \<and> ball (initialState r0) =
        \<lparr> position = Vector 300 300, acceleration = Some (Vector 0 0),
          velocity = Some (Vector (if r0 then 3 else - 3) 0), body_size = 7 \<rparr>"
  by (simp add: initialState_def initialiseBricks_def createBrick_def createBar_def
        createBall_def Constants_defs Vector_Zero_def Let_def even_iff_mod_2_eq_zero mult.commute)

theorem restart_yields_initialState_witness:
  "reduceState False True (config False 99 300 300 (- 3) 0 (445 / 2) (525 / 2) 0 1 0) (Restart True)
     = Inr (initialState False)
   \<and> p2Score (config False 99 300 300 (- 3) 0 (445 / 2) (525 / 2) 0 1 0) = 1
   \<and> p2Score (initialState False) = 0"
  using restart_yields_initialState [of False True "config False 99 300 300 (- 3) 0 (445 / 2) (525 / 2) 0 1 0" True]
  by (simp add: config_sel)

text \<open>
  Claim C7: for every state and every \<^verbatim>\<open>Slide\<close> event the reducer returns the state with the
  position of the player's paddle replaced by \<^verbatim>\<open>position.add((0, direction))\<close> if the new
  \<open>y\<close> lies in \<open>[0, CanvasSize - BarHeight]\<close>, and the state unchanged otherwise (the move
  is rejected, not clamped to the bound); from \<open>y = 0\<close>, \<^verbatim>\<open>Slide(-8)\<close> leaves the state as it
  is.
\<close>

theorem slide_accepts_or_rejects:
  "reduceState r0 rnd s (Slide d) =
     Inr (s\<lparr> playerBar := (playerBar s)
            \<lparr> position :=
                (if 0 \<le> vec_y (add (position (playerBar s)) (Vector 0 d))
                    \<and> vec_y (add (position (playerBar s)) (Vector 0 d)) \<le> CanvasSize - BarHeight
                 then add (position (playerBar s)) (Vector 0 d)
                 else position (playerBar s)) \<rparr> \<rparr>)
   \<and> (vec_y (position (playerBar s)) = 0 \<longrightarrow>
        reduceState r0 rnd s (Slide (- 8)) = Inr s)"
  by (auto simp: Constants_defs add_def)

theorem slide_accepts_or_rejects_witness:
  "vec_y (position (playerBar (config True 0 300 300 3 0 0 (525 / 2) 0 0 0))) = 0
   \<and> reduceState True False (config True 0 300 300 3 0 0 (525 / 2) 0 0 0) (Slide (- 8))
       = Inr (config True 0 300 300 3 0 0 (525 / 2) 0 0 0)
   \<and> reduceState True False (config True 0 300 300 3 0 0 (525 / 2) 0 0 0) (Slide 8)
       = Inr (config True 0 300 300 3 0 8 (525 / 2) 0 0 0)"
  using slide_accepts_or_rejects [of True False "config True 0 300 300 3 0 0 (525 / 2) 0 0 0" "- 8"]
  by (simp add: config_sel slide_config del: reduceState.simps)

text \<open>
  Claim C8: on every \<^verbatim>\<open>Tick\<close>, with the ball advanced by its velocity, the score of player 2
  grows by exactly 1 if the ball's \<open>x\<close> is at most 0 and by 0 otherwise, the score of player 1
  grows by exactly 1 if the ball's \<open>x\<close> is at least \<open>CanvasSize\<close> and by 0 otherwise, each
  tested on its own; when either holds, the ball of the new state is a newly created ball, at
  the centre of the canvas with horizontal speed 3 or -3 and no vertical speed, whatever the
  bounce rules would give; otherwise the ball is where the advance put it. (A ball without a
  velocity makes the tick fail; no reachable state has one, see \<open>reachable_ball_velocity\<close>.)
\<close>

theorem tick_scores_in_endzone:
  assumes "velocity (ball s) = Some v"
  shows "\<exists>s'. reduceState r0 rnd s (Tick e) = Inr s'
     \<and> p2Score s' = p2Score s + (if vec_x (add (position (ball s)) v) \<le> 0 then 1 else 0)
     \<and> p1Score s' = p1Score s + (if vec_x (add (position (ball s)) v) \<ge> CanvasSize then 1 else 0)
     \<and> (if vec_x (add (position (ball s)) v) \<le> 0 \<or> vec_x (add (position (ball s)) v) \<ge> CanvasSize
         then ball s' = createBall rnd
              \<and> position (ball s') = Vector (CanvasSize / 2) (CanvasSize / 2)
              \<and> velocity (ball s') = Some (Vector (if rnd then 3 else - 3) 0)
         else position (ball s') = add (position (ball s)) v)"
proof -
  let ?m = "advance s e v"
  have 1: "reduceState r0 rnd s (Tick e) = Inr (stepState rnd ?m v)"
    using assms by (simp add: tick_Some)
  have 2: "position (ball ?m) = add (position (ball s)) v"
    by (simp add: advance_sel)
  have 3: "position (ball (stepState rnd ?m v)) = add (position (ball s)) v"
    if "\<not> (vec_x (add (position (ball s)) v) \<le> 0 \<or> vec_x (add (position (ball s)) v) \<ge> CanvasSize)"
    using that
    by (simp add: stepState_sel nextBall_def isballp1Endzone_def isballp2Endzone_def Zero_def
          calculateBallBounce_def advance_sel)
  show ?thesis
    unfolding 1
    using 3 nextBall_endzone [of ?m rnd v "isBreakout ?m \<and> anyBrickHit ?m"]
    by (simp add: stepState_sel advance_sel createBall_def Zero_def)
qed

theorem tick_scores_in_endzone_witness:
  "velocity (ball (config False 41 2 300 (- 3) 0 (445 / 2) (525 / 2) 0 0 0)) = Some (Vector (- 3) 0)
   \<and> map_sum id (\<lambda>s'. (p1Score s', p2Score s', ball s'))
        (reduceState False True (config False 41 2 300 (- 3) 0 (445 / 2) (525 / 2) 0 0 0) (Tick 42))
       = Inr (0, 1, createBall True)"
  using tick_scores_in_endzone [of "config False 41 2 300 (- 3) 0 (445 / 2) (525 / 2) 0 0 0"
          "Vector (- 3) 0" False True 42]
  by (auto simp: config_sel add_def CanvasSize_def)

text \<open>
  Claim C9: in every reachable state the ball has a velocity whose \<open>x\<close> component is 3 or -3,
  so never zero; and whichever rule \<^verbatim>\<open>calculateBallBounce\<close> applies (paddle, border, brick or
  none), the \<open>x\<close> component of the result has the magnitude of the one it was given.
\<close>

theorem ball_velocity_x_never_zero:
  assumes "reachable r0 s"
  shows "\<exists>v. velocity (ball s) = Some v \<and> \<bar>vec_x v\<bar> = 3 \<and> vec_x v \<noteq> 0
     \<and> (\<forall>border paddle err brick. \<exists>w.
           velocity (calculateBallBounce (ball s) v border paddle err brick) = Some w
           \<and> \<bar>vec_x w\<bar> = \<bar>vec_x v\<bar>)"
proof -
  from reachable_ball_velocity [OF assms] obtain v
    where v: "velocity (ball s) = Some v" "\<bar>vec_x v\<bar> = 3" by blast
  from v(2) have "vec_x v \<noteq> 0" by auto
  with v calculateBallBounce_velocity_x [of "ball s" v] show ?thesis by blast
qed

theorem ball_velocity_x_never_zero_witness:
  "reachable False (config False 456 381 (4684 / 125) 3 (- (112 / 125)) (189 / 2) (- (5 / 4)) 0 0 0)
   \<and> velocity (ball (config False 456 381 (4684 / 125) 3 (- (112 / 125)) (189 / 2) (- (5 / 4)) 0 0 0))
       = Some (Vector 3 (- (112 / 125)))
   \<and> \<bar>vec_x (Vector 3 (- (112 / 125)))\<bar> = 3"
  using ball_velocity_x_never_zero [OF reachable_config [OF escapeTrace_run]]
    reachable_config [OF escapeTrace_run]
  by (simp add: config_sel)

text \<open>
  Claim C10: in every reachable state the player's paddle is at \<open>x = CanvasSize / 8\<close> and the
  computer's at \<open>x = 7 * CanvasSize / 8\<close>, and every event is reduced to a state in which
  both \<open>x\<close> coordinates are what they were.
\<close>

theorem paddles_keep_x:
  assumes "reachable r0 s"
  shows "vec_x (position (playerBar s)) = CanvasSize / 8
     \<and> vec_x (position (computerBar s)) = 7 * CanvasSize / 8
     \<and> (\<forall>rnd eve. \<exists>s'. reduceState r0 rnd s eve = Inr s'
           \<and> vec_x (position (playerBar s')) = vec_x (position (playerBar s))
           \<and> vec_x (position (computerBar s')) = vec_x (position (computerBar s)))"
proof -
  have "\<exists>s'. reduceState r0 rnd s eve = Inr s'
           \<and> vec_x (position (playerBar s')) = vec_x (position (playerBar s))
           \<and> vec_x (position (computerBar s')) = vec_x (position (computerBar s))" for rnd eve
  proof -
    from reduceState_total [OF assms] obtain s' where s': "reduceState r0 rnd s eve = Inr s'"
      by blast
    with assms have "reachable r0 s'" by (rule reachable.step)
    from reachable_paddle_x [OF this] reachable_paddle_x [OF assms] s' show ?thesis by simp
  qed
  with reachable_paddle_x [OF assms] show ?thesis by blast
qed

theorem paddles_keep_x_witness:
  "reachable False (config False 456 381 (4684 / 125) 3 (- (112 / 125)) (189 / 2) (- (5 / 4)) 0 0 0)
   \<and> position (playerBar (config False 456 381 (4684 / 125) 3 (- (112 / 125)) (189 / 2) (- (5 / 4)) 0 0 0))
       = Vector 75 (189 / 2)
   \<and> position (computerBar (config False 456 381 (4684 / 125) 3 (- (112 / 125)) (189 / 2) (- (5 / 4)) 0 0 0))
       = Vector 525 (- (5 / 4))"
  using paddles_keep_x [OF reachable_config [OF escapeTrace_run]]
    reachable_config [OF escapeTrace_run]
  by (simp add: config_sel CanvasSize_def)

end
